theory Spec2Isabelle
  imports Main "HOL-Library.Sublist"
begin

section \<open>JavaScript strings and paths\<close>

text \<open>
  A JavaScript string is modelled as a \<^typ>\<open>string\<close>: a list of code units, restricted to
  the 8-bit range. The helpers below are the string methods the action calls.
\<close>

text \<open>\<^verbatim>\<open>String.prototype.trim\<close>: the white space of ECMAScript in the 8-bit range
  (TAB, LF, VT, FF, CR, SPACE, NBSP).\<close>

definition js_space :: "char \<Rightarrow> bool" where
  "js_space c = (c \<in> set [CHR 0x09, CHR 0x0A, CHR 0x0B, CHR 0x0C, CHR 0x0D, CHR 0x20, CHR 0xA0])"

definition js_trim :: "string \<Rightarrow> string" where
  "js_trim s = rev (dropWhile js_space (rev (dropWhile js_space s)))"

text \<open>\<^verbatim>\<open>s.split(" ")\<close>: cut at every single space; \<^verbatim>\<open>"".split(" ")\<close> is \<^verbatim>\<open>[""]\<close>.\<close>

fun js_split :: "char \<Rightarrow> string \<Rightarrow> string list" where
  "js_split d [] = [[]]"
| "js_split d (c # cs) =
     (if c = d then [] # js_split d cs
      else (case js_split d cs of [] \<Rightarrow> [[c]] | x # xs \<Rightarrow> (c # x) # xs))"

text \<open>\<^verbatim>\<open>xs.join(sep)\<close>.\<close>

fun js_join :: "string \<Rightarrow> string list \<Rightarrow> string" where
  "js_join sep [] = []"
| "js_join sep [x] = x"
| "js_join sep (x # y # ys) = x @ sep @ js_join sep (y # ys)"

text \<open>\<^verbatim>\<open>s.replace(pat, rep)\<close> with a string pattern: the first occurrence only.\<close>

fun js_replace :: "string \<Rightarrow> string \<Rightarrow> string \<Rightarrow> string" where
  "js_replace pat rep [] = (if pat = [] then rep else [])"
| "js_replace pat rep (c # cs) =
     (if take (length pat) (c # cs) = pat then rep @ drop (length pat) (c # cs)
      else c # js_replace pat rep cs)"

text \<open>\<^verbatim>\<open>a || b\<close> on strings: the empty string is falsy.\<close>

definition js_or :: "string \<Rightarrow> string \<Rightarrow> string" where
  "js_or a b = (if a = [] then b else a)"

text \<open>Decimal rendering of a number inside a template literal.\<close>

fun show_nat :: "nat \<Rightarrow> string" where
  "show_nat n =
     (if n < 10 then [''0123456789'' ! n]
      else show_nat (n div 10) @ [''0123456789'' ! (n mod 10)])"

declare show_nat.simps [simp del]

definition show_int :: "int \<Rightarrow> string" where
  "show_int i = (if i < 0 then CHR ''-'' # show_nat (nat (- i)) else show_nat (nat i))"

text \<open>
  \<^verbatim>\<open>path.join\<close> of Node.js on POSIX: the non-empty arguments are joined with a slash and
  the result is normalised (empty and \<^verbatim>\<open>.\<close> segments dropped, \<^verbatim>\<open>..\<close> resolved, a trailing
  slash kept).
\<close>

fun normalizeString :: "bool \<Rightarrow> string list \<Rightarrow> string list \<Rightarrow> string list" where
  "normalizeString allowAboveRoot res [] = res"
| "normalizeString allowAboveRoot res (seg # segs) =
     (if seg = [] \<or> seg = ''.'' then normalizeString allowAboveRoot res segs
      else if seg = ''..'' then
        (if res \<noteq> [] \<and> last res \<noteq> ''..''
           then normalizeString allowAboveRoot (butlast res) segs
         else if allowAboveRoot
           then normalizeString allowAboveRoot (res @ [''..'']) segs
         else normalizeString allowAboveRoot res segs)
      else normalizeString allowAboveRoot (res @ [seg]) segs)"

definition normalize :: "string \<Rightarrow> string" where
  "normalize p =
     (if p = [] then ''.''
      else
        let isAbsolute = (hd p = CHR ''/'');
            trailingSeparator = (last p = CHR ''/'');
            q = js_join ''/'' (normalizeString (\<not> isAbsolute) [] (js_split CHR ''/'' p))
        in if q = [] then (if isAbsolute then ''/'' else if trailingSeparator then ''./'' else ''.'')
           else (if isAbsolute then ''/'' else []) @ q @ (if trailingSeparator then ''/'' else []))"

type_synonym path = string

definition path_join :: "path list \<Rightarrow> path" where
  "path_join args =
     (let joined = js_join ''/'' (filter (\<lambda>a. a \<noteq> []) args)
      in if joined = [] then ''.'' else normalize joined)"

section \<open>The environment of a run and its effects\<close>

text \<open>
  A thrown JavaScript \<^verbatim>\<open>Error\<close> is a value; only its message is observed
  (through \<^verbatim>\<open>error.message\<close>).
\<close>

datatype error = JsError (message: string)

text \<open>
  An external process either cannot be started, or exits with a status after writing
  chunks to its standard output and standard error, in that order of arrival.
\<close>

datatype chunk = Stdout string | Stderr string

datatype proc_outcome = Exit int "chunk list" | SpawnFail string

text \<open>
  Everything a run does to the outside world is an event: the log and report calls of
  \<^verbatim>\<open>@actions/core\<close>, every \<^verbatim>\<open>exec.exec\<close> call with the outcome the runtime gave it,
  timers and writes to the host file system.
\<close>

datatype event =
    Info string
  | Warning string
  | ErrorLog string
  | SetFailed string
  | SetOutput string string
  | ConsoleLog string
  | Exec string "string list" proc_outcome
  | Sleep nat
  | EnsureDir string
  | WriteFile string string

text \<open>
  The environment is what the action reads and what answers its calls: the inputs
  (\<^verbatim>\<open>INPUT_*\<close> variables, by input name), \<^verbatim>\<open>GITHUB_WORKSPACE\<close>, the container runtime
  (the answer to the n-th external call of the run, counted from 0), and the host file
  system as found by the reads and as answering the writes. The container writes the
  output directory, so what a read finds there is part of the environment.
\<close>

record env =
  inputs :: "string \<Rightarrow> string option"
  workspace :: "string option"
  runtime :: "nat \<Rightarrow> string \<Rightarrow> string list \<Rightarrow> proc_outcome"
  ensureDir_error :: "string \<Rightarrow> string option"
  writeFile_error :: "string \<Rightarrow> string option"
  path_exists :: "string \<Rightarrow> bool"
  file_read :: "string \<Rightarrow> error + string"
  dir_read :: "string \<Rightarrow> error + string list"

text \<open>
  An action takes the number of external calls issued before it, and yields its result
  (a thrown error on the left) together with the events it has produced, oldest first.
\<close>

type_synonym 'a act = "nat \<Rightarrow> (error + 'a) \<times> event list"

fun is_Exec :: "event \<Rightarrow> bool" where
  "is_Exec (Exec tool args out) = True"
| "is_Exec _ = False"

definition calls :: "event list \<Rightarrow> nat" where
  "calls evs = length (filter is_Exec evs)"

definition ret :: "'a \<Rightarrow> 'a act" where
  "ret x = (\<lambda>n. (Inr x, []))"

definition throw :: "error \<Rightarrow> 'a act" where
  "throw e = (\<lambda>n. (Inl e, []))"

definition emit :: "event \<Rightarrow> unit act" where
  "emit e = (\<lambda>n. (Inr (), [e]))"

text \<open>Sequencing (\<^verbatim>\<open>await\<close> and then go on): an error ends the sequence.\<close>

definition seq :: "'a act \<Rightarrow> ('a \<Rightarrow> 'b act) \<Rightarrow> 'b act" where
  "seq m f = (\<lambda>n.
     case m n of
       (Inl e, evs) \<Rightarrow> (Inl e, evs)
     | (Inr x, evs) \<Rightarrow> (case f x (n + calls evs) of (r, evs') \<Rightarrow> (r, evs @ evs')))"

text \<open>\<^verbatim>\<open>try { m } catch (error) { h(error) }\<close>.\<close>

definition try_catch :: "'a act \<Rightarrow> (error \<Rightarrow> 'a act) \<Rightarrow> 'a act" where
  "try_catch m h = (\<lambda>n.
     case m n of
       (Inl e, evs) \<Rightarrow> (case h e (n + calls evs) of (r, evs') \<Rightarrow> (r, evs @ evs'))
     | (Inr x, evs) \<Rightarrow> (Inr x, evs))"

text \<open>\<^verbatim>\<open>try { m } finally { fin }\<close>: \<^verbatim>\<open>fin\<close> always runs; an error thrown by it replaces
  the outcome of \<^verbatim>\<open>m\<close>.\<close>

definition try_finally :: "'a act \<Rightarrow> unit act \<Rightarrow> 'a act" where
  "try_finally m fin = (\<lambda>n.
     case m n of (r, evs) \<Rightarrow>
       (case fin (n + calls evs) of
          (Inl e, evs') \<Rightarrow> (Inl e, evs @ evs')
        | (Inr u, evs') \<Rightarrow> (r, evs @ evs')))"

subsection \<open>The library calls\<close>

text \<open>
  \<^verbatim>\<open>core.getInput(name, {required})\<close> of \<^verbatim>\<open>@actions/core\<close>: the value of the input
  variable, or the empty string when it is unset; a required input that is empty throws;
  the value is returned with leading and trailing white space trimmed.
\<close>

definition getInput :: "env \<Rightarrow> string \<Rightarrow> bool \<Rightarrow> string act" where
  "getInput E name required =
     (let val = (case inputs E name of None \<Rightarrow> [] | Some v \<Rightarrow> v)
      in if required \<and> val = []
         then throw (JsError (''Input required and not supplied: '' @ name))
         else ret (js_trim val))"

definition info :: "string \<Rightarrow> unit act" where
  "info msg = emit (Info msg)"

definition warning :: "string \<Rightarrow> unit act" where
  "warning msg = emit (Warning msg)"

definition setFailed :: "string \<Rightarrow> unit act" where
  "setFailed msg = emit (SetFailed msg)"

definition setOutput :: "string \<Rightarrow> string \<Rightarrow> unit act" where
  "setOutput name v = emit (SetOutput name v)"

definition sleep :: "nat \<Rightarrow> unit act" where
  "sleep ms = emit (Sleep ms)"

text \<open>
  \<^verbatim>\<open>exec.exec(tool, args, {ignoreReturnCode})\<close> of \<^verbatim>\<open>@actions/exec\<close>: the call is issued
  once; it rejects when the process cannot be started, and when it exits with a nonzero
  status unless \<^verbatim>\<open>ignoreReturnCode\<close> is set; otherwise it resolves to the exit status, the
  listeners having received the chunks. (The library prints the resolved path of the tool
  in the message; the model prints the tool as given.)
\<close>

definition exec :: "env \<Rightarrow> string \<Rightarrow> string list \<Rightarrow> bool \<Rightarrow> (int \<times> chunk list) act" where
  "exec E tool args ignoreReturnCode = (\<lambda>n.
     let out = runtime E n tool args in
     (case out of
        SpawnFail msg \<Rightarrow> Inl (JsError msg)
      | Exit code chunks \<Rightarrow>
          if code \<noteq> 0 \<and> \<not> ignoreReturnCode
          then Inl (JsError (''The process '' @ [CHR 0x27] @ tool @ [CHR 0x27] @
                             '' failed with exit code '' @ show_int code))
          else Inr (code, chunks),
      [Exec tool args out]))"

fun stdout_of :: "chunk list \<Rightarrow> string list" where
  "stdout_of [] = []"
| "stdout_of (Stdout d # cs) = d # stdout_of cs"
| "stdout_of (Stderr d # cs) = stdout_of cs"

fun data_of :: "chunk \<Rightarrow> string" where
  "data_of (Stdout d) = d"
| "data_of (Stderr d) = d"

text \<open>\<^verbatim>\<open>fs.ensureDir\<close>, \<^verbatim>\<open>fs.writeFile\<close>, \<^verbatim>\<open>fs.readdir\<close>, \<^verbatim>\<open>fs.readFile\<close>,
  \<^verbatim>\<open>fs.existsSync\<close> and \<^verbatim>\<open>fs.pathExists\<close> of \<^verbatim>\<open>fs-extra\<close>.\<close>

definition ensureDir :: "env \<Rightarrow> string \<Rightarrow> unit act" where
  "ensureDir E p =
     (case ensureDir_error E p of
        Some msg \<Rightarrow> throw (JsError msg)
      | None \<Rightarrow> emit (EnsureDir p))"

definition writeFile :: "env \<Rightarrow> string \<Rightarrow> string \<Rightarrow> unit act" where
  "writeFile E p content =
     (case writeFile_error E p of
        Some msg \<Rightarrow> throw (JsError msg)
      | None \<Rightarrow> emit (WriteFile p content))"

definition readdir :: "env \<Rightarrow> string \<Rightarrow> string list act" where
  "readdir E p = (case dir_read E p of Inl e \<Rightarrow> throw e | Inr names \<Rightarrow> ret names)"

definition readFile :: "env \<Rightarrow> string \<Rightarrow> string act" where
  "readFile E p = (case file_read E p of Inl e \<Rightarrow> throw e | Inr content \<Rightarrow> ret content)"

text \<open>\<^verbatim>\<open>path.join(workspace, ...)\<close> with \<^verbatim>\<open>workspace = process.env.GITHUB_WORKSPACE\<close>:
  an undefined argument is a \<^verbatim>\<open>TypeError\<close>.\<close>

definition join_workspace :: "string option \<Rightarrow> string list \<Rightarrow> string act" where
  "join_workspace ws parts =
     (case ws of
        None \<Rightarrow> throw (JsError (''The '' @ [CHR 0x22] @ ''path'' @ [CHR 0x22] @
          '' argument must be of type string. Received undefined''))
      | Some w \<Rightarrow> ret (path_join (w # parts)))"

text \<open>The host files after a run: the writes of the run, in order, over the files found.\<close>

fun files_after :: "(string \<Rightarrow> string option) \<Rightarrow> event list \<Rightarrow> (string \<Rightarrow> string option)" where
  "files_after fs [] = fs"
| "files_after fs (WriteFile p content # evs) = files_after (fs(p \<mapsto> content)) evs"
| "files_after fs (e # evs) = files_after fs evs"


definition errorLog :: "string \<Rightarrow> unit act" where
  "errorLog msg = emit (ErrorLog msg)"

definition consoleLog :: "string \<Rightarrow> unit act" where
  "consoleLog msg = emit (ConsoleLog msg)"

text \<open>\<^verbatim>\<open>error.stack\<close>: its first line; the frames below it are not modelled.\<close>

definition stack_of :: "error \<Rightarrow> string" where
  "stack_of e = ''Error: '' @ message e"

text \<open>\<^verbatim>\<open>core.getInput(name, { required: false }) || dflt\<close>.\<close>

definition getInput_or :: "env \<Rightarrow> string \<Rightarrow> string \<Rightarrow> string act" where
  "getInput_or E name dflt = seq (getInput E name False) (\<lambda>v. ret (js_or v dflt))"

section \<open>The action that starts the container and returns (\<^verbatim>\<open>src/index.js\<close>, line 7)\<close>

definition patternsFileInsideContainer :: string where
  "patternsFileInsideContainer = ''/tmp/roc-config/pattern.yaml''"

definition watchDirInsideContainer :: string where
  "watchDirInsideContainer = ''/tmp/roc-output''"

definition libsslContainerPath :: string where
  "libsslContainerPath = ''/usr/lib64/libssl.so.3''"

definition libcryptoContainerPath :: string where
  "libcryptoContainerPath = ''/usr/lib64/libcrypto.so.3''"

definition dockerRunCmd_detached ::
  "string \<Rightarrow> path \<Rightarrow> path \<Rightarrow> path \<Rightarrow> path \<Rightarrow> string \<Rightarrow> string \<Rightarrow> string \<Rightarrow> string
     \<Rightarrow> string list" where
  "dockerRunCmd_detached containerName libsslHostPath libcryptoHostPath hostOutputDir
       hostConfigDir extraDockerArgs dockerImage serverUrl apiKey =
     filter (\<lambda>arg. arg \<noteq> [])
       ([''docker'', ''run'', ''-d'', ''--name'', containerName,
         ''--privileged'', ''--pid=host'', ''--network=host'',
         ''-v'', ''/proc:/proc'',
         ''-v'', ''/sys:/sys'',
         ''-v'', libsslHostPath @ '':'' @ libsslContainerPath,
         ''-v'', libcryptoHostPath @ '':'' @ libcryptoContainerPath,
         ''-v'', hostOutputDir @ '':/tmp/roc-output'',
         ''-v'', hostConfigDir @ '':/tmp/roc-config:ro'']
        @ js_split CHR '' '' extraDockerArgs
        @ [dockerImage,
           ''--server-url'', serverUrl,
           ''--api-key'', apiKey,
           ''--patterns'', patternsFileInsideContainer,
           ''--watch'', watchDirInsideContainer])"

definition run_detached_body :: "env \<Rightarrow> unit act" where
  "run_detached_body E =
     seq (getInput E ''patterns_yaml'' True) (\<lambda>patternsYamlContent.
     seq (getInput E ''docker_image'' True) (\<lambda>dockerImage.
     seq (getInput E ''server_url'' True) (\<lambda>serverUrl.
     seq (getInput E ''api_key'' True) (\<lambda>apiKey.
     seq (getInput_or E ''libssl_host_path'' ''/lib/x86_64-linux-gnu/libssl.so.3'') (\<lambda>libsslHostPath.
     seq (getInput_or E ''libcrypto_host_path'' ''/lib/x86_64-linux-gnu/libcrypto.so.3'') (\<lambda>libcryptoHostPath.
     seq (getInput_or E ''container_name'' ''roc-action-container'') (\<lambda>containerName.
     seq (getInput_or E ''output_dir_host_path'' ''./roc-action-output'') (\<lambda>outputDirHostPath.
     seq (getInput_or E ''extra_docker_args'' []) (\<lambda>extraDockerArgs.
     seq (join_workspace (workspace E) [''roc-config-action'']) (\<lambda>hostConfigDir.
     seq (join_workspace (workspace E) [js_replace ''./'' [] outputDirHostPath]) (\<lambda>hostOutputDir.
     seq (ensureDir E hostConfigDir) (\<lambda>_.
     seq (ensureDir E hostOutputDir) (\<lambda>_.
     seq (info (''Host Config Dir: '' @ hostConfigDir)) (\<lambda>_.
     seq (info (''Host Output Dir: '' @ hostOutputDir)) (\<lambda>_.
     let hostPatternFilePath = path_join [hostConfigDir, ''pattern.yaml''] in
     seq (writeFile E hostPatternFilePath patternsYamlContent) (\<lambda>_.
     seq (info (''User-provided patterns file written to: '' @ hostPatternFilePath)) (\<lambda>_.
     let dockerRunCmd = dockerRunCmd_detached containerName libsslHostPath libcryptoHostPath
           hostOutputDir hostConfigDir extraDockerArgs dockerImage serverUrl apiKey in
     seq (info (''Running Docker command: '' @ js_join '' '' dockerRunCmd)) (\<lambda>_.
     seq (exec E (hd dockerRunCmd) (tl dockerRunCmd) False) (\<lambda>(dockerRunExitCode, _).
     if dockerRunExitCode \<noteq> 0
     then setFailed (''Docker run failed with exit code '' @ show_int dockerRunExitCode)
     else
     seq (sleep 20000) (\<lambda>_.
     seq (setOutput ''container_name'' containerName) (\<lambda>_.
     info (''Container '' @ [CHR 0x27] @ containerName @ [CHR 0x27] @
           '' started and ready for external interaction.''))))))))))))))))))))))"

definition run_detached :: "env \<Rightarrow> unit act" where
  "run_detached E = try_catch (run_detached_body E) (\<lambda>error. setFailed (message error))"

section \<open>The action that monitors the container and cleans up (\<^verbatim>\<open>src/index.js\<close>, line 130)\<close>

definition checkSslLibraries :: "env \<Rightarrow> string \<Rightarrow> string \<Rightarrow> bool act" where
  "checkSslLibraries E sslLibPath sslLibVersion =
     try_catch
       (let sslPath = path_join [sslLibPath, ''libssl.so.'' @ sslLibVersion];
            cryptoPath = path_join [sslLibPath, ''libcrypto.so.'' @ sslLibVersion];
            sslExists = path_exists E sslPath;
            cryptoExists = path_exists E cryptoPath
        in if sslExists \<and> cryptoExists
           then seq (info (''Found SSL libraries: '' @ sslPath @ '', '' @ cryptoPath))
                  (\<lambda>_. ret True)
           else seq (warning (''SSL libraries not found: '' @ sslPath @ '', '' @ cryptoPath))
                  (\<lambda>_. ret False))
       (\<lambda>error. seq (warning (''Error checking SSL libraries: '' @ message error))
                  (\<lambda>_. ret False))"

datatype loop_exit = Break | Continue

text \<open>One pass through the body of the \<^verbatim>\<open>for\<close> loop of \<^verbatim>\<open>monitorContainer\<close>.\<close>

definition monitor_iteration :: "env \<Rightarrow> string \<Rightarrow> loop_exit act" where
  "monitor_iteration E containerId =
     try_catch
       (seq (exec E ''docker'' [''inspect'', ''--format'', ''{{.State.Status}}'', containerId] False)
          (\<lambda>(_, chunks).
             let status = concat (map js_trim (stdout_of chunks)) in
             if status = ''running'' then seq (info ''ROC container is running'') (\<lambda>_. ret Break)
             else if status = ''exited''
               then seq (warning ''ROC container has exited'') (\<lambda>_. ret Break)
             else seq (info (''Container status: '' @ status @ '', waiting...'')) (\<lambda>_.
                  seq (sleep 10000) (\<lambda>_. ret Continue))))
       (\<lambda>error. seq (warning (''Could not inspect container: '' @ message error))
                  (\<lambda>_. ret Break))"

text \<open>\<^verbatim>\<open>for (let i = 0; i < 30; i++) { ... }\<close>, entered at \<open>i\<close>.\<close>

function monitor_loop :: "env \<Rightarrow> string \<Rightarrow> nat \<Rightarrow> unit act" where
  "monitor_loop E containerId i =
     (if i < 30
      then seq (monitor_iteration E containerId)
             (\<lambda>c. case c of Break \<Rightarrow> ret () | Continue \<Rightarrow> monitor_loop E containerId (Suc i))
      else ret ())"
  by pat_completeness auto
termination
  by (relation "measure (\<lambda>(E, containerId, i). 30 - i)") auto

declare monitor_loop.simps [simp del]

definition monitorContainer :: "env \<Rightarrow> string \<Rightarrow> unit act" where
  "monitorContainer E containerId =
     seq (info ''Monitoring ROC container...'') (\<lambda>_.
     seq (monitor_loop E containerId 0) (\<lambda>_.
     seq (exec E ''docker'' [''logs'', containerId] False) (\<lambda>_. ret ())))"

definition getOutputFiles :: "env \<Rightarrow> string \<Rightarrow> string act" where
  "getOutputFiles E outputDir =
     try_catch
       (seq (readdir E outputDir) (\<lambda>files. ret (js_join [CHR 0x0A] files)))
       (\<lambda>error. seq (warning (''Could not read output directory: '' @ message error))
                  (\<lambda>_. ret []))"

definition getContainerLogs :: "env \<Rightarrow> string \<Rightarrow> string act" where
  "getContainerLogs E containerId =
     try_catch
       (seq (exec E ''docker'' [''logs'', containerId] False)
          (\<lambda>(_, chunks). ret (concat (map data_of chunks))))
       (\<lambda>error. seq (warning (''Could not get container logs: '' @ message error))
                  (\<lambda>_. ret []))"

definition cleanupContainer :: "env \<Rightarrow> unit act" where
  "cleanupContainer E =
     try_catch
       (seq (info ''Cleaning up ROC container...'') (\<lambda>_.
        seq (exec E ''docker'' [''stop'', ''roc-test''] True) (\<lambda>_.
        seq (exec E ''docker'' [''rm'', ''roc-test''] True) (\<lambda>_.
        info ''Container cleanup completed''))))
       (\<lambda>error. warning (''Cleanup error: '' @ message error))"

definition dockerArgs ::
  "path \<Rightarrow> bool \<Rightarrow> path \<Rightarrow> string \<Rightarrow> path \<Rightarrow> path \<Rightarrow> string \<Rightarrow> string \<Rightarrow> string
     \<Rightarrow> path \<Rightarrow> string \<Rightarrow> string list" where
  "dockerArgs ws sslLibExists sslLibPath sslLibVersion outputDir configDir dockerImage
       serverUrl apiKey patterns additionalArgs =
     (let sslArgs =
            (if sslLibExists
             then [''-v'', sslLibPath @ ''/libssl.so.'' @ sslLibVersion @
                           '':/usr/lib64/libssl.so.'' @ sslLibVersion,
                   ''-v'', sslLibPath @ ''/libcrypto.so.'' @ sslLibVersion @
                           '':/usr/lib64/libcrypto.so.'' @ sslLibVersion]
             else [])
      in [''run'', ''-d'', ''--name'', ''roc-test'',
          ''--privileged'', ''--pid=host'', ''--network=host'',
          ''-v'', ''/proc:/proc'',
          ''-v'', ''/sys:/sys'']
         @ sslArgs
         @ [''-v'', ws @ ''/'' @ outputDir @ '':/tmp/roc-output'',
            ''-v'', ws @ ''/'' @ configDir @ '':/tmp/roc-config:ro'',
            dockerImage,
            ''--server-url'', serverUrl,
            ''--api-key'', apiKey,
            ''--patterns'', ''/tmp/roc-config/'' @ patterns,
            ''--watch'', ''/tmp/roc-output'']
         @ (if js_trim additionalArgs \<noteq> []
            then js_split CHR '' '' (js_trim additionalArgs) else []))"

definition run_monitored_body :: "env \<Rightarrow> unit act" where
  "run_monitored_body E =
     seq (getInput E ''server-url'' True) (\<lambda>serverUrl.
     seq (getInput E ''api-key'' True) (\<lambda>apiKey.
     seq (getInput E ''patterns'' True) (\<lambda>patterns.
     seq (getInput_or E ''config-dir'' ''roc-config'') (\<lambda>configDir.
     seq (getInput_or E ''output-dir'' ''roc-output'') (\<lambda>outputDir.
     seq (getInput_or E ''docker-image'' ''hanshal785/roc:v5'') (\<lambda>dockerImage.
     seq (getInput_or E ''additional-args'' []) (\<lambda>additionalArgs.
     seq (getInput_or E ''ssl-lib-path'' ''/lib/x86_64-linux-gnu'') (\<lambda>sslLibPath.
     seq (getInput_or E ''ssl-lib-version'' ''3'') (\<lambda>sslLibVersion.
     seq (info ''ROC GitHub Action started'') (\<lambda>_.
     seq (info (''Server URL: '' @ serverUrl)) (\<lambda>_.
     seq (info (''Config directory: '' @ configDir)) (\<lambda>_.
     seq (info (''Pattern file: '' @ patterns)) (\<lambda>_.
     seq (info (''Output directory: '' @ outputDir)) (\<lambda>_.
     let ws = js_or (case workspace E of None \<Rightarrow> [] | Some w \<Rightarrow> w) ''.'';
         patternFilePath = path_join [ws, configDir, patterns] in
     if \<not> path_exists E patternFilePath
     then throw (JsError (''Pattern file does not exist: '' @ patternFilePath))
     else
     seq (info (''Pattern file found: '' @ patternFilePath)) (\<lambda>_.
     seq (readFile E patternFilePath) (\<lambda>patternContent.
     seq (info (''Pattern file content preview: '' @ take 200 patternContent @ ''...'')) (\<lambda>_.
     seq (checkSslLibraries E sslLibPath sslLibVersion) (\<lambda>sslLibExists.
     seq (if \<not> sslLibExists
          then warning (''SSL libraries not found at '' @ sslLibPath @ ''. ROC may fail to start.'')
          else info (''SSL libraries found at: '' @ sslLibPath)) (\<lambda>_.
     seq (ensureDir E outputDir) (\<lambda>_.
     seq (ensureDir E configDir) (\<lambda>_.
     let args = dockerArgs ws sslLibExists sslLibPath sslLibVersion outputDir configDir
           dockerImage serverUrl apiKey patterns additionalArgs in
     seq (info ''Starting ROC container...'') (\<lambda>_.
     seq (info (''Docker command: docker '' @ js_join '' '' args)) (\<lambda>_.
     seq (exec E ''docker'' args False) (\<lambda>(exitCode, _).
     if exitCode \<noteq> 0
     then throw (JsError (''Failed to start ROC container. Exit code: '' @ show_int exitCode))
     else
     seq (exec E ''docker'' [''ps'', ''-q'', ''--filter'', ''name=roc-test''] False) (\<lambda>(_, chunks).
     let containerId = js_trim (concat (stdout_of chunks)) in
     seq (setOutput ''container-id'' containerId) (\<lambda>_.
     seq (info (''ROC container started with ID: '' @ containerId)) (\<lambda>_.
     seq (monitorContainer E containerId) (\<lambda>_.
     seq (getOutputFiles E outputDir) (\<lambda>outputFiles.
     seq (setOutput ''output-files'' outputFiles) (\<lambda>_.
     seq (info (''Output files: '' @ outputFiles)) (\<lambda>_.
     seq (getContainerLogs E containerId) (\<lambda>logs.
     seq (setOutput ''logs'' logs) (\<lambda>_.
     info ''ROC container logs captured'')))))))))))))))))))))))))))))))))"

definition run_monitored :: "env \<Rightarrow> unit act" where
  "run_monitored E =
     try_finally
       (try_catch (run_monitored_body E)
          (\<lambda>error. seq (setFailed (message error)) (\<lambda>_. errorLog (stack_of error))))
       (cleanupContainer E)"

section \<open>The action that simulates traffic (\<^verbatim>\<open>src/unnamed/part_000\<close>, line 8)\<close>

definition dockerRunCmd_traffic ::
  "string \<Rightarrow> path \<Rightarrow> path \<Rightarrow> string \<Rightarrow> string \<Rightarrow> string \<Rightarrow> string \<Rightarrow> string list" where
  "dockerRunCmd_traffic containerName hostOutputDir hostConfigDir extraDockerArgs dockerImage
       serverUrl apiKey =
     filter (\<lambda>arg. arg \<noteq> [])
       ([''docker'', ''run'', ''-d'', ''--name'', containerName,
         ''--privileged'', ''--pid=host'', ''--network=host'',
         ''-v'', ''/proc:/proc'',
         ''-v'', ''/sys:/sys'',
         ''-v'', ''/lib/x86_64-linux-gnu/libssl.so.3:/usr/lib64/libssl.so.3'',
         ''-v'', ''/lib/x86_64-linux-gnu/libcrypto.so.3:/usr/lib64/libcrypto.so.3'',
         ''-v'', hostOutputDir @ '':/tmp/roc-output'',
         ''-v'', hostConfigDir @ '':/tmp/roc-config:ro'']
        @ js_split CHR '' '' extraDockerArgs
        @ [dockerImage,
           ''--server-url'', serverUrl,
           ''--api-key'', apiKey,
           ''--patterns'', patternsFileInsideContainer,
           ''--watch'', watchDirInsideContainer])"

definition simulate_script :: string where
  "simulate_script =
     ''find / -name '' @ [CHR 0x22] @ ''libssl.so*'' @ [CHR 0x22] @
     '' 2>/dev/null; ldd $(which curl); echo '' @ [CHR 0x22] @ ''Generating curl traffic...'' @
     [CHR 0x22] @ ''; curl -s https://example.com > /dev/null || true; curl -s -X POST '' @
     [CHR 0x22] @ ''https://httpbin.org/post?test=12345667788764'' @ [CHR 0x22] @ '' -H '' @
     [CHR 0x22] @ ''Content-Type: application/json'' @ [CHR 0x22] @ '' -d '' @ [CHR 0x27] @
     ''{'' @ [CHR 0x22] @ ''data'' @ [CHR 0x22] @ '':'' @ [CHR 0x22] @ ''12345667788764'' @
     [CHR 0x22] @ ''}'' @ [CHR 0x27] @ '' > /dev/null || true''"

definition moreTraffic_script :: string where
  "moreTraffic_script =
     ''curl -X POST '' @ [CHR 0x22] @ ''https://example.com?more=12345667788764'' @ [CHR 0x22] @
     '' -H '' @ [CHR 0x22] @ ''Content-Type: application/json'' @ [CHR 0x22] @ '' -d '' @
     [CHR 0x27] @ ''{'' @ [CHR 0x22] @ ''info'' @ [CHR 0x22] @ '':'' @ [CHR 0x22] @
     ''12345667788764'' @ [CHR 0x22] @ ''}'' @ [CHR 0x27] @ '' > /dev/null || true''"

text \<open>\<^verbatim>\<open>for (const file of outputFiles) { ... }\<close>.\<close>

fun print_files :: "env \<Rightarrow> string \<Rightarrow> string list \<Rightarrow> unit act" where
  "print_files E hostOutputDir [] = ret ()"
| "print_files E hostOutputDir (file # outputFiles) =
     (let filePath = path_join [hostOutputDir, file] in
      seq (info (''Contents of '' @ filePath @ '':'')) (\<lambda>_.
      seq (readFile E filePath) (\<lambda>content.
      seq (consoleLog content) (\<lambda>_.
      print_files E hostOutputDir outputFiles))))"

definition run_traffic_body :: "env \<Rightarrow> unit act" where
  "run_traffic_body E =
     seq (getInput E ''patterns_yaml'' True) (\<lambda>patternsYamlContent.
     seq (getInput E ''docker_image'' True) (\<lambda>dockerImage.
     seq (getInput E ''server_url'' True) (\<lambda>serverUrl.
     seq (getInput E ''api_key'' True) (\<lambda>apiKey.
     seq (getInput_or E ''container_name'' ''roc-action-container'') (\<lambda>containerName.
     seq (getInput_or E ''output_dir_host_path'' ''./roc-action-output'') (\<lambda>outputDirHostPath.
     seq (getInput_or E ''extra_docker_args'' []) (\<lambda>extraDockerArgs.
     seq (join_workspace (workspace E) [''roc-config-action'']) (\<lambda>hostConfigDir.
     seq (join_workspace (workspace E) [js_replace ''./'' [] outputDirHostPath]) (\<lambda>hostOutputDir.
     seq (ensureDir E hostConfigDir) (\<lambda>_.
     seq (ensureDir E hostOutputDir) (\<lambda>_.
     seq (info (''Host Config Dir: '' @ hostConfigDir)) (\<lambda>_.
     seq (info (''Host Output Dir: '' @ hostOutputDir)) (\<lambda>_.
     let hostPatternFilePath = path_join [hostConfigDir, ''pattern.yaml''] in
     seq (writeFile E hostPatternFilePath patternsYamlContent) (\<lambda>_.
     seq (info (''User-provided patterns file written to: '' @ hostPatternFilePath)) (\<lambda>_.
     let dockerRunCmd = dockerRunCmd_traffic containerName hostOutputDir hostConfigDir
           extraDockerArgs dockerImage serverUrl apiKey in
     seq (info (''Running Docker command: '' @ js_join '' '' dockerRunCmd)) (\<lambda>_.
     seq (exec E (hd dockerRunCmd) (tl dockerRunCmd) False) (\<lambda>(dockerRunExitCode, _).
     if dockerRunExitCode \<noteq> 0
     then setFailed (''Docker run failed with exit code '' @ show_int dockerRunExitCode)
     else
     seq (sleep 20000) (\<lambda>_.
     seq (info ''Simulating network traffic...'') (\<lambda>_.
     seq (exec E ''docker'' [''exec'', containerName, ''sh'', ''-c'', simulate_script] False) (\<lambda>_.
     seq (sleep 20000) (\<lambda>_.
     seq (info ''Fetching ROC container logs...'') (\<lambda>_.
     seq (exec E ''docker'' [''logs'', containerName] False) (\<lambda>_.
     seq (info ''Simulating more network traffic...'') (\<lambda>_.
     seq (exec E ''docker'' [''exec'', containerName, ''sh'', ''-c'', moreTraffic_script] False) (\<lambda>_.
     seq (sleep 20000) (\<lambda>_.
     seq (info ''Fetching ROC container logs again...'') (\<lambda>_.
     seq (exec E ''docker'' [''logs'', containerName] False) (\<lambda>_.
     seq (info ''Checking for output files in host output directory...'') (\<lambda>_.
     seq (readdir E hostOutputDir) (\<lambda>outputFiles.
     seq (if length outputFiles > 0
          then print_files E hostOutputDir outputFiles
          else info ''No output files found in the host output directory.'') (\<lambda>_.
     setOutput ''container_name'' containerName)))))))))))))))))))))))))))))))"

definition run_traffic :: "env \<Rightarrow> unit act" where
  "run_traffic E = try_catch (run_traffic_body E) (\<lambda>error. setFailed (message error))"


section \<open>Observing a run\<close>

text \<open>A run starts with no external call issued. Its trace is the list of its events.\<close>

definition trace :: "'a act \<Rightarrow> event list" where
  "trace m = snd (m 0)"

definition outcome :: "'a act \<Rightarrow> error + 'a" where
  "outcome m = fst (m 0)"

text \<open>The argument lists of the external calls of a trace, in order.\<close>

fun exec_calls :: "event list \<Rightarrow> string list list" where
  "exec_calls [] = []"
| "exec_calls (Exec tool args out # evs) = args # exec_calls evs"
| "exec_calls (e # evs) = exec_calls evs"

text \<open>The failures reported to the caller (\<^verbatim>\<open>core.setFailed\<close>), in order.\<close>

fun failures :: "event list \<Rightarrow> string list" where
  "failures [] = []"
| "failures (SetFailed msg # evs) = msg # failures evs"
| "failures (e # evs) = failures evs"

text \<open>An input is absent when its variable is unset or empty.\<close>

definition absent :: "env \<Rightarrow> string \<Rightarrow> bool" where
  "absent E name = (inputs E name = None \<or> inputs E name = Some [])"

text \<open>The outcomes of the status inspections of a trace, in order.\<close>

fun inspections :: "event list \<Rightarrow> proc_outcome list" where
  "inspections [] = []"
| "inspections (Exec tool args out # evs) =
     (if take 1 args = [''inspect''] then out # inspections evs else inspections evs)"
| "inspections (e # evs) = inspections evs"

definition inspect_args :: "string \<Rightarrow> string list" where
  "inspect_args containerId = [''inspect'', ''--format'', ''{{.State.Status}}'', containerId]"

text \<open>The status that the monitor reads from an inspection: the trimmed chunks of its
  standard output, when the call resolves.\<close>

definition status_of :: "proc_outcome \<Rightarrow> string option" where
  "status_of out =
     (case out of
        Exit code chunks \<Rightarrow>
          if code = 0 then Some (concat (map js_trim (stdout_of chunks))) else None
      | SpawnFail msg \<Rightarrow> None)"

definition terminal :: "proc_outcome \<Rightarrow> bool" where
  "terminal out = (status_of out = Some ''running'' \<or> status_of out = Some ''exited'')"

text \<open>An inspection ends the polling when its status is terminal or the call fails.\<close>

definition ends_polling :: "proc_outcome \<Rightarrow> bool" where
  "ends_polling out = (terminal out \<or> status_of out = None)"

text \<open>The inspections of a polling loop of at most \<open>bound\<close> iterations: the loop goes on
  only after an inspection that does not end the polling.\<close>

definition polled :: "nat \<Rightarrow> proc_outcome list \<Rightarrow> bool" where
  "polled bound outs =
     (length outs \<le> bound
      \<and> (0 < bound \<longrightarrow> outs \<noteq> [])
      \<and> (\<forall>k < length outs. ends_polling (outs ! k) \<longrightarrow> Suc k = length outs)
      \<and> (length outs < bound \<longrightarrow> ends_polling (last outs)))"

text \<open>Every event of an action satisfies \<open>P\<close>, wherever the action starts; and the values an
  action can return.\<close>

definition emits :: "(event \<Rightarrow> bool) \<Rightarrow> 'a act \<Rightarrow> bool" where
  "emits P m = (\<forall>n. \<forall>e \<in> set (snd (m n)). P e)"

definition returns :: "'a act \<Rightarrow> 'a \<Rightarrow> bool" where
  "returns m x = (\<exists>n. fst (m n) = Inr x)"

text \<open>The event is an external call with these arguments.\<close>

fun is_call :: "string list \<Rightarrow> event \<Rightarrow> bool" where
  "is_call a (Exec tool args out) = (args = a)"
| "is_call a e = False"

text \<open>An event that is neither a call of the cleanup nor a report of failure.\<close>

definition main_event :: "event \<Rightarrow> bool" where
  "main_event e = (\<not> is_call [''stop'', ''roc-test''] e \<and> \<not> is_call [''rm'', ''roc-test''] e
                   \<and> failures [e] = [])"

text \<open>The events of \<^verbatim>\<open>cleanupContainer\<close>, given the outcomes of its two calls.\<close>

definition cleanup_trace :: "proc_outcome \<Rightarrow> proc_outcome \<Rightarrow> event list" where
  "cleanup_trace stopped removed =
     Info ''Cleaning up ROC container...''
     # Exec ''docker'' [''stop'', ''roc-test''] stopped
     # (case stopped of
          SpawnFail msg \<Rightarrow> [Warning (''Cleanup error: '' @ msg)]
        | Exit code chunks \<Rightarrow>
            Exec ''docker'' [''rm'', ''roc-test''] removed
            # (case removed of
                 SpawnFail msg \<Rightarrow> [Warning (''Cleanup error: '' @ msg)]
               | Exit code' chunks' \<Rightarrow> [Info ''Container cleanup completed'']))"

text \<open>The warnings of a trace, in order.\<close>

fun warnings :: "event list \<Rightarrow> string list" where
  "warnings [] = []"
| "warnings (Warning msg # evs) = msg # warnings evs"
| "warnings (e # evs) = warnings evs"

text \<open>What the two actions that stage the pattern file compute from the environment:
  an input as \<^verbatim>\<open>getInput\<close> delivers it, the container name and the host paths.\<close>

definition input_value :: "env \<Rightarrow> string \<Rightarrow> string" where
  "input_value E name = js_trim (case inputs E name of None \<Rightarrow> [] | Some v \<Rightarrow> v)"

definition workspace_of :: "env \<Rightarrow> path" where
  "workspace_of E = (case workspace E of None \<Rightarrow> [] | Some w \<Rightarrow> w)"

definition containerName_of :: "env \<Rightarrow> string" where
  "containerName_of E = js_or (input_value E ''container_name'') ''roc-action-container''"

definition hostConfigDir_of :: "env \<Rightarrow> path" where
  "hostConfigDir_of E = path_join [workspace_of E, ''roc-config-action'']"

definition hostOutputDir_of :: "env \<Rightarrow> path" where
  "hostOutputDir_of E =
     path_join [workspace_of E,
       js_replace ''./'' [] (js_or (input_value E ''output_dir_host_path'') ''./roc-action-output'')]"

definition hostPatternFilePath_of :: "env \<Rightarrow> path" where
  "hostPatternFilePath_of E = path_join [hostConfigDir_of E, ''pattern.yaml'']"

text \<open>Whenever an event satisfying \<open>Q\<close> occurs in an action, the result of the action and
  the events after it are related to it by \<open>R\<close>.\<close>

definition when_seen ::
  "(event \<Rightarrow> bool) \<Rightarrow> (event \<Rightarrow> error + 'a \<Rightarrow> event list \<Rightarrow> bool) \<Rightarrow> 'a act \<Rightarrow> bool" where
  "when_seen Q R m =
     (\<forall>n pre e post. snd (m n) = pre @ e # post \<and> Q e \<longrightarrow> R e (fst (m n)) post)"

text \<open>The message logged before the output directory is read.\<close>

definition checking_files :: event where
  "checking_files = Info ''Checking for output files in host output directory...''"

text \<open>The writes of a trace, in order, and a host on which no file exists yet.\<close>

fun writes :: "event list \<Rightarrow> (path \<times> string) list" where
  "writes [] = []"
| "writes (WriteFile p content # evs) = (p, content) # writes evs"
| "writes (e # evs) = writes evs"

definition no_files :: "path \<Rightarrow> string option" where
  "no_files = (\<lambda>p. None)"

text \<open>The event writes nothing, or it writes the pattern input, as \<^verbatim>\<open>getInput\<close> delivers it,
  to the pattern file.\<close>

definition stages :: "env \<Rightarrow> event \<Rightarrow> bool" where
  "stages E e =
     (writes [e] = [] \<or>
      (\<not> absent E ''patterns_yaml''
       \<and> writes [e] = [(hostPatternFilePath_of E, input_value E ''patterns_yaml'')]))"

text \<open>The container that an external call addresses: the name given to \<^verbatim>\<open>run\<close>, the name
  that \<^verbatim>\<open>ps\<close> filters on, or the container argument of \<^verbatim>\<open>inspect\<close>, \<^verbatim>\<open>exec\<close>, \<^verbatim>\<open>logs\<close>, \<^verbatim>\<open>stop\<close>
  and \<^verbatim>\<open>rm\<close>.\<close>

definition call_key :: "string list \<Rightarrow> string option" where
  "call_key args =
     (if take 3 args = [''run'', ''-d'', ''--name''] \<and> 3 < length args then Some (args ! 3)
      else if take 3 args = [''ps'', ''-q'', ''--filter''] \<and> length args = 4
              \<and> take 5 (args ! 3) = ''name='' then Some (drop 5 (args ! 3))
      else if take 3 args = [''inspect'', ''--format'', ''{{.State.Status}}''] \<and> length args = 4
        then Some (args ! 3)
      else if take 1 args = [''exec''] \<and> 1 < length args then Some (args ! 1)
      else if (take 1 args = [''logs''] \<or> take 1 args = [''stop''] \<or> take 1 args = [''rm''])
              \<and> length args = 2 then Some (args ! 1)
      else None)"

text \<open>The container id that a run reads from the output of its \<^verbatim>\<open>ps\<close> call.\<close>

fun container_id_of :: "event list \<Rightarrow> string" where
  "container_id_of [] = []"
| "container_id_of (Exec tool args out # evs) =
     (if take 1 args = [''ps'']
      then (case out of Exit code chunks \<Rightarrow> js_trim (concat (stdout_of chunks)) | SpawnFail msg \<Rightarrow> [])
      else container_id_of evs)"
| "container_id_of (e # evs) = container_id_of evs"

definition keyed :: "string \<Rightarrow> event \<Rightarrow> bool" where
  "keyed name e = (\<forall>args \<in> set (exec_calls [e]). call_key args = Some name)"

definition keyed_by_id :: "string \<Rightarrow> event \<Rightarrow> bool" where
  "keyed_by_id containerId e =
     (\<forall>args \<in> set (exec_calls [e]).
        call_key args =
          Some (if take 1 args = [''inspect''] \<or> take 1 args = [''logs'']
                then containerId else ''roc-test''))"

definition no_ps :: "event \<Rightarrow> bool" where
  "no_ps e = (\<forall>args \<in> set (exec_calls [e]). take 1 args \<noteq> [''ps''])"

text \<open>Every event of the action is keyed by the container id that the action itself reads.\<close>

definition idform :: "'a act \<Rightarrow> bool" where
  "idform m = (\<forall>n. \<forall>e \<in> set (snd (m n)). keyed_by_id (container_id_of (snd (m n))) e)"

text \<open>An external call has failed when the process could not be started or exited with a
  status other than zero; a failed launch is a \<^verbatim>\<open>run\<close> call that exited with a status other
  than zero.\<close>

fun failed_outcome :: "proc_outcome \<Rightarrow> bool" where
  "failed_outcome (Exit code chunks) = (code \<noteq> 0)"
| "failed_outcome (SpawnFail msg) = True"

fun failed_call :: "event \<Rightarrow> bool" where
  "failed_call (Exec tool args out) = failed_outcome out"
| "failed_call e = False"

fun failed_launch :: "event \<Rightarrow> bool" where
  "failed_launch (Exec tool args (Exit code chunks)) = (take 1 args = [''run''] \<and> code \<noteq> 0)"
| "failed_launch e = False"

text \<open>The message of the error with which \<^verbatim>\<open>exec.exec\<close> rejects for a failed call.\<close>

fun call_error :: "event \<Rightarrow> string" where
  "call_error (Exec tool args (Exit code chunks)) =
     ''The process '' @ [CHR 0x27] @ tool @ [CHR 0x27] @ '' failed with exit code '' @ show_int code"
| "call_error (Exec tool args (SpawnFail msg)) = msg"
| "call_error e = []"

text \<open>The action stops at an event: nothing follows it and the error of the call is
  thrown.\<close>

definition halts :: "event \<Rightarrow> error + 'a \<Rightarrow> event list \<Rightarrow> bool" where
  "halts e r post = (post = [] \<and> r = Inl (JsError (call_error e)))"

text \<open>Two calls of the same command: the same tool and the same subcommand. A trace has no
  retry when no failed call is followed by a call of the same command.\<close>

fun same_call :: "event \<Rightarrow> event \<Rightarrow> bool" where
  "same_call (Exec tool args out) (Exec tool' args' out') =
     (tool = tool' \<and> take 1 args = take 1 args')"
| "same_call e e' = False"

fun no_retry :: "event list \<Rightarrow> bool" where
  "no_retry [] = True"
| "no_retry (e # evs) = ((failed_call e \<longrightarrow> (\<forall>e' \<in> set evs. \<not> same_call e e')) \<and> no_retry evs)"

text \<open>The order in which the monitoring action issues its commands. A trace climbs when every
  failed call is followed by calls of higher rank only; an action is staged between two
  ranks when its traces climb, its calls have at least the lower rank and its failed calls
  at most the upper one, strictly below it when the action returns.\<close>

definition call_rank :: "string list \<Rightarrow> nat" where
  "call_rank args =
     (if take 1 args = [''run''] then 0
      else if take 1 args = [''ps''] then 2
      else if take 1 args = [''inspect''] then 4
      else if take 1 args = [''logs''] then 6
      else if take 1 args = [''stop''] then 10
      else if take 1 args = [''rm''] then 12
      else 14)"

fun rank :: "event \<Rightarrow> nat" where
  "rank (Exec tool args out) = call_rank args"
| "rank e = 0"

fun climbs :: "event list \<Rightarrow> bool" where
  "climbs [] = True"
| "climbs (e # evs) =
     ((failed_call e \<longrightarrow> (\<forall>e' \<in> set evs. is_Exec e' \<longrightarrow> rank e < rank e')) \<and> climbs evs)"

definition staged :: "nat \<Rightarrow> nat \<Rightarrow> 'a act \<Rightarrow> bool" where
  "staged lo hi m =
     (\<forall>n. climbs (snd (m n))
        \<and> (\<forall>e \<in> set (snd (m n)). is_Exec e \<longrightarrow> lo \<le> rank e)
        \<and> (\<forall>e \<in> set (snd (m n)). failed_call e \<longrightarrow>
              rank e \<le> hi \<and> (\<forall>x. fst (m n) = Inr x \<longrightarrow> rank e < hi)))"

text \<open>A trace from its first external call on.\<close>

definition from_first_call :: "event list \<Rightarrow> event list" where
  "from_first_call evs = dropWhile (\<lambda>e. \<not> is_Exec e) evs"

text \<open>The commands of the external calls of a trace, in order: the first argument of each
  call (\<^verbatim>\<open>run\<close>, \<^verbatim>\<open>ps\<close>, \<^verbatim>\<open>inspect\<close>, \<^verbatim>\<open>logs\<close>, \<^verbatim>\<open>exec\<close>, \<^verbatim>\<open>stop\<close>, \<^verbatim>\<open>rm\<close>).\<close>

definition commands :: "event list \<Rightarrow> string list" where
  "commands evs = concat (map (take 1) (exec_calls evs))"

text \<open>Whenever the action returns and has reported no failure, the commands it has issued
  satisfy \<open>P\<close>.\<close>

definition issues :: "'a act \<Rightarrow> (string list \<Rightarrow> bool) \<Rightarrow> bool" where
  "issues m P =
     (\<forall>n x. fst (m n) = Inr x \<and> failures (snd (m n)) = [] \<longrightarrow> P (commands (snd (m n))))"

section \<open>Example environments\<close>

text \<open>A host on which every file system call succeeds and the output directory is empty.\<close>

definition host ::
  "(string \<times> string) list \<Rightarrow> (nat \<Rightarrow> string \<Rightarrow> string list \<Rightarrow> proc_outcome) \<Rightarrow> env" where
  "host ins rt =
     \<lparr> inputs = map_of ins, workspace = Some ''/w'', runtime = rt,
       ensureDir_error = (\<lambda>p. None), writeFile_error = (\<lambda>p. None),
       path_exists = (\<lambda>p. True), file_read = (\<lambda>p. Inr ''a: 1''),
       dir_read = (\<lambda>p. Inr []) \<rparr>"

text \<open>A runtime on which every call succeeds and the container is running at once.\<close>

definition docker_up :: "nat \<Rightarrow> string \<Rightarrow> string list \<Rightarrow> proc_outcome" where
  "docker_up n tool args =
     (if take 1 args = [''ps''] then Exit 0 [Stdout (''abc123'' @ [CHR 0x0A])]
      else if take 1 args = [''inspect''] then Exit 0 [Stdout (''running'' @ [CHR 0x0A])]
      else Exit 0 [])"

text \<open>The server URL is supplied, the API key and the patterns are not.\<close>

definition E_no_key :: env where
  "E_no_key = host [(''server_url'', ''https://x''), (''server-url'', ''https://x'')] docker_up"

text \<open>The inputs of the scenario of the specification, the pattern file being \<^verbatim>\<open>p.yaml\<close>,
  and the same with another pattern file name.\<close>

definition E_p :: env where
  "E_p = host [(''server-url'', ''https://x''), (''api-key'', ''k''), (''patterns'', ''p.yaml'')]
           docker_up"

definition E_q :: env where
  "E_q = host [(''server-url'', ''https://x''), (''api-key'', ''k''), (''patterns'', ''q.yaml'')]
           docker_up"

text \<open>Additional arguments with two spaces between them.\<close>

definition E_two_spaces :: env where
  "E_two_spaces =
     host [(''server-url'', ''https://x''), (''api-key'', ''k''), (''patterns'', ''p.yaml''),
           (''additional-args'', ''--foo  --bar'')] docker_up"

text \<open>A container that is reported as created twice and as running at the third
  inspection, the status arriving in two chunks.\<close>

definition docker_slow :: "nat \<Rightarrow> string \<Rightarrow> string list \<Rightarrow> proc_outcome" where
  "docker_slow n tool args =
     (if take 1 args = [''inspect'']
      then (if n < 2 then Exit 0 [Stdout (''created'' @ [CHR 0x0A])]
            else Exit 0 [Stdout ''run'', Stdout (''ning'' @ [CHR 0x0A])])
      else Exit 0 [])"

definition E_slow :: env where
  "E_slow = host [] docker_slow"

text \<open>A host without the container runtime: no external call can be started.\<close>

definition docker_missing :: "nat \<Rightarrow> string \<Rightarrow> string list \<Rightarrow> proc_outcome" where
  "docker_missing n tool args = SpawnFail ''Unable to locate executable file: docker''"

definition E_down :: env where
  "E_down = host [(''server-url'', ''https://x''), (''api-key'', ''k''), (''patterns'', ''p.yaml'')]
              docker_missing"

text \<open>The inputs of the actions that stage the pattern file; the pattern content ends with
  a line feed, as a block scalar of a workflow file does.\<close>

definition E_traffic :: env where
  "E_traffic =
     host [(''patterns_yaml'', ''a: 1'' @ [CHR 0x0A]), (''docker_image'', ''img''),
           (''server_url'', ''https://x''), (''api_key'', ''k'')] docker_up"

definition E_unreadable :: env where
  "E_unreadable = E_traffic \<lparr> dir_read := (\<lambda>p. Inl (JsError ''EACCES: permission denied'')) \<rparr>"

text \<open>The scenario of the specification with a container name supplied, under both
  spellings of the input.\<close>

definition E_named :: env where
  "E_named =
     host [(''server-url'', ''https://x''), (''api-key'', ''k''), (''patterns'', ''p.yaml''),
           (''container_name'', ''mine''), (''container-name'', ''mine'')] docker_up"

text \<open>A runtime that refuses to launch: the \<^verbatim>\<open>run\<close> call exits with status 125. The inputs
  are those of all three actions.\<close>

definition docker_refused :: "nat \<Rightarrow> string \<Rightarrow> string list \<Rightarrow> proc_outcome" where
  "docker_refused n tool args =
     (if take 1 args = [''run'']
      then Exit 125 [Stderr ''docker: Error response from daemon: pull access denied'']
      else Exit 0 [])"

definition E_refused :: env where
  "E_refused =
     host [(''patterns_yaml'', ''a: 1''), (''docker_image'', ''img''),
           (''server_url'', ''https://x''), (''api_key'', ''k''),
           (''server-url'', ''https://x''), (''api-key'', ''k''), (''patterns'', ''p.yaml'')]
          docker_refused"

text \<open>A container that is still being created at the first two inspections of a run of
  the monitoring action and runs at the third.\<close>

definition docker_starting :: "nat \<Rightarrow> string \<Rightarrow> string list \<Rightarrow> proc_outcome" where
  "docker_starting n tool args =
     (if take 1 args = [''ps''] then Exit 0 [Stdout (''abc123'' @ [CHR 0x0A])]
      else if take 1 args = [''inspect'']
      then Exit 0 [Stdout ((if n < 4 then ''created'' else ''running'') @ [CHR 0x0A])]
      else Exit 0 [])"

definition E_starting :: env where
  "E_starting =
     host [(''server-url'', ''https://x''), (''api-key'', ''k''), (''patterns'', ''p.yaml'')]
          docker_starting"

text \<open>A runtime on which the container is already gone when the cleanup runs: \<^verbatim>\<open>stop\<close> and
  \<^verbatim>\<open>rm\<close> exit with status 1.\<close>

definition docker_gone :: "nat \<Rightarrow> string \<Rightarrow> string list \<Rightarrow> proc_outcome" where
  "docker_gone n tool args =
     (if take 1 args = [''stop''] \<or> take 1 args = [''rm'']
      then Exit 1 [Stderr ''Error response from daemon: No such container: roc-test'']
      else docker_up n tool args)"

definition E_gone :: env where
  "E_gone = host [(''server-url'', ''https://x''), (''api-key'', ''k''), (''patterns'', ''p.yaml'')]
              docker_gone"

section \<open>Facts about the effect combinators\<close>

lemmas run_simps = seq_def try_catch_def try_finally_def ret_def throw_def emit_def
  getInput_def getInput_or_def info_def warning_def setFailed_def setOutput_def sleep_def
  errorLog_def consoleLog_def exec_def ensureDir_def writeFile_def readdir_def readFile_def
  join_workspace_def Let_def

lemmas eval_simps = run_simps run_detached_def run_detached_body_def run_traffic_def
  run_traffic_body_def run_monitored_def run_monitored_body_def checkSslLibraries_def
  monitorContainer_def monitor_loop.simps monitor_iteration_def getOutputFiles_def
  getContainerLogs_def cleanupContainer_def dockerRunCmd_detached_def dockerRunCmd_traffic_def
  dockerArgs_def trace_def outcome_def host_def docker_up_def js_trim_def js_space_def
  js_or_def path_join_def normalize_def patternsFileInsideContainer_def
  watchDirInsideContainer_def libsslContainerPath_def libcryptoContainerPath_def

lemma calls_Nil [simp]: "calls [] = 0"
  by (simp add: calls_def)

lemma calls_append [simp]: "calls (xs @ ys) = calls xs + calls ys"
  by (simp add: calls_def)

lemma calls_Cons [simp]: "calls (e # evs) = (if is_Exec e then 1 else 0) + calls evs"
  by (simp add: calls_def)

lemma seq_Inl: "fst (m n) = Inl e \<Longrightarrow> seq m f n = (Inl e, snd (m n))"
  by (cases "m n") (auto simp add: seq_def split: prod.splits sum.splits)

lemma seq_Inr:
  "fst (m n) = Inr x \<Longrightarrow>
   seq m f n = (fst (f x (n + calls (snd (m n)))), snd (m n) @ snd (f x (n + calls (snd (m n)))))"
  by (cases "m n") (auto simp add: seq_def split: prod.splits sum.splits)

lemma snd_try_finally:
  "snd (try_finally m fin n) = snd (m n) @ snd (fin (n + calls (snd (m n))))"
  by (cases "m n") (auto simp add: try_finally_def split: prod.splits sum.splits)

lemma try_catch_Inl:
  "fst (m n) = Inl e \<Longrightarrow>
   try_catch m h n =
     (fst (h e (n + calls (snd (m n)))), snd (m n) @ snd (h e (n + calls (snd (m n)))))"
  by (cases "m n") (auto simp add: try_catch_def split: prod.splits sum.splits)

lemma try_catch_Inr: "fst (m n) = Inr x \<Longrightarrow> try_catch m h n = (Inr x, snd (m n))"
  by (cases "m n") (auto simp add: try_catch_def split: prod.splits sum.splits)

lemma getInput_absent:
  "absent E name \<Longrightarrow>
   getInput E name True n = (Inl (JsError (''Input required and not supplied: '' @ name)), [])"
  by (auto simp: getInput_def absent_def throw_def ret_def split: option.splits)

lemma getInput_present:
  "\<not> absent E name \<Longrightarrow>
   getInput E name True n = (Inr (js_trim (the (inputs E name))), [])"
  by (auto simp: getInput_def absent_def throw_def ret_def split: option.splits)

section \<open>The launch arguments and the container-internal paths\<close>

lemma suffix_dockerRunCmd_detached:
  "suffix [''--patterns'', ''/tmp/roc-config/pattern.yaml'', ''--watch'', ''/tmp/roc-output'']
     (dockerRunCmd_detached containerName libsslHostPath libcryptoHostPath hostOutputDir
        hostConfigDir extraDockerArgs dockerImage serverUrl apiKey)"
  unfolding dockerRunCmd_detached_def patternsFileInsideContainer_def
    watchDirInsideContainer_def suffix_def
  by simp

lemma suffix_dockerRunCmd_traffic:
  "suffix [''--patterns'', ''/tmp/roc-config/pattern.yaml'', ''--watch'', ''/tmp/roc-output'']
     (dockerRunCmd_traffic containerName hostOutputDir hostConfigDir extraDockerArgs dockerImage
        serverUrl apiKey)"
  unfolding dockerRunCmd_traffic_def patternsFileInsideContainer_def
    watchDirInsideContainer_def suffix_def
  by simp

lemma sublist_dockerArgs:
  "sublist [''--patterns'', ''/tmp/roc-config/'' @ patterns, ''--watch'', ''/tmp/roc-output'']
     (dockerArgs ws sslLibExists sslLibPath sslLibVersion outputDir configDir dockerImage
        serverUrl apiKey patterns additionalArgs)"
  by (simp add: dockerArgs_def Let_def sublist_Cons_right)

text \<open>
  Claim C2, as amended. Whatever the host-side configuration, the launch command of the two
  actions that stage the pattern file themselves ends with
  \<^verbatim>\<open>--patterns /tmp/roc-config/pattern.yaml --watch /tmp/roc-output\<close>. The launch arguments
  of the monitoring action hold \<^verbatim>\<open>--patterns /tmp/roc-config/<patterns> --watch /tmp/roc-output\<close>
  in a row: the watch path and the directory of the pattern path are fixed, independent of
  the workspace, the config directory and the output directory, while the file name of the
  pattern path is the \<^verbatim>\<open>patterns\<close> input.
\<close>

theorem launch_args_container_paths:
  "suffix [''--patterns'', ''/tmp/roc-config/pattern.yaml'', ''--watch'', ''/tmp/roc-output'']
     (dockerRunCmd_detached containerName libsslHostPath libcryptoHostPath hostOutputDir
        hostConfigDir extraDockerArgs dockerImage serverUrl apiKey)
   \<and> suffix [''--patterns'', ''/tmp/roc-config/pattern.yaml'', ''--watch'', ''/tmp/roc-output'']
     (dockerRunCmd_traffic containerName hostOutputDir hostConfigDir extraDockerArgs dockerImage
        serverUrl apiKey)
   \<and> sublist [''--patterns'', ''/tmp/roc-config/'' @ patterns, ''--watch'', ''/tmp/roc-output'']
     (dockerArgs ws sslLibExists sslLibPath sslLibVersion outputDir configDir dockerImage
        serverUrl apiKey patterns additionalArgs)"
  by (intro conjI suffix_dockerRunCmd_detached suffix_dockerRunCmd_traffic sublist_dockerArgs)

text \<open>
  Claim C2 as stated fails on the monitoring action: two runs that differ in the pattern
  file name only are launched with different pattern paths, and neither holds the path
  \<^verbatim>\<open>/tmp/roc-config/pattern.yaml\<close>.
\<close>

theorem launch_pattern_path_counterexample:
  "hd (exec_calls (trace (run_monitored E_p))) =
     [''run'', ''-d'', ''--name'', ''roc-test'', ''--privileged'', ''--pid=host'',
      ''--network=host'', ''-v'', ''/proc:/proc'', ''-v'', ''/sys:/sys'',
      ''-v'', ''/lib/x86_64-linux-gnu/libssl.so.3:/usr/lib64/libssl.so.3'',
      ''-v'', ''/lib/x86_64-linux-gnu/libcrypto.so.3:/usr/lib64/libcrypto.so.3'',
      ''-v'', ''/w/roc-output:/tmp/roc-output'', ''-v'', ''/w/roc-config:/tmp/roc-config:ro'',
      ''hanshal785/roc:v5'', ''--server-url'', ''https://x'', ''--api-key'', ''k'',
      ''--patterns'', ''/tmp/roc-config/p.yaml'', ''--watch'', ''/tmp/roc-output'']
   \<and> hd (exec_calls (trace (run_monitored E_q))) =
     [''run'', ''-d'', ''--name'', ''roc-test'', ''--privileged'', ''--pid=host'',
      ''--network=host'', ''-v'', ''/proc:/proc'', ''-v'', ''/sys:/sys'',
      ''-v'', ''/lib/x86_64-linux-gnu/libssl.so.3:/usr/lib64/libssl.so.3'',
      ''-v'', ''/lib/x86_64-linux-gnu/libcrypto.so.3:/usr/lib64/libcrypto.so.3'',
      ''-v'', ''/w/roc-output:/tmp/roc-output'', ''-v'', ''/w/roc-config:/tmp/roc-config:ro'',
      ''hanshal785/roc:v5'', ''--server-url'', ''https://x'', ''--api-key'', ''k'',
      ''--patterns'', ''/tmp/roc-config/q.yaml'', ''--watch'', ''/tmp/roc-output'']
   \<and> patternsFileInsideContainer \<notin> set (hd (exec_calls (trace (run_monitored E_p))))
   \<and> patternsFileInsideContainer \<notin> set (hd (exec_calls (trace (run_monitored E_q))))"
  by code_simp

section \<open>Empty arguments in the launch command\<close>

lemma no_empty_arg_detached:
  "[] \<notin> set (dockerRunCmd_detached containerName libsslHostPath libcryptoHostPath
            hostOutputDir hostConfigDir extraDockerArgs dockerImage serverUrl apiKey)"
  by (simp add: dockerRunCmd_detached_def)

lemma no_empty_arg_traffic:
  "[] \<notin> set (dockerRunCmd_traffic containerName hostOutputDir hostConfigDir extraDockerArgs
            dockerImage serverUrl apiKey)"
  by (simp add: dockerRunCmd_traffic_def)

lemma js_split_blank: "set s \<subseteq> {d} \<Longrightarrow> set (js_split d s) \<subseteq> {[]}"
  by (induction s) (auto split: list.splits)

lemma blank_extra_detached:
  "set extraDockerArgs \<subseteq> {CHR '' ''} \<Longrightarrow>
   dockerRunCmd_detached containerName libsslHostPath libcryptoHostPath hostOutputDir
     hostConfigDir extraDockerArgs dockerImage serverUrl apiKey
   = dockerRunCmd_detached containerName libsslHostPath libcryptoHostPath hostOutputDir
     hostConfigDir [] dockerImage serverUrl apiKey"
  using js_split_blank[of extraDockerArgs "CHR '' ''"]
  by (auto simp add: dockerRunCmd_detached_def filter_empty_conv)

lemma blank_extra_traffic:
  "set extraDockerArgs \<subseteq> {CHR '' ''} \<Longrightarrow>
   dockerRunCmd_traffic containerName hostOutputDir hostConfigDir extraDockerArgs dockerImage
     serverUrl apiKey
   = dockerRunCmd_traffic containerName hostOutputDir hostConfigDir [] dockerImage
     serverUrl apiKey"
  using js_split_blank[of extraDockerArgs "CHR '' ''"]
  by (auto simp add: dockerRunCmd_traffic_def filter_empty_conv)

lemma blank_additional_monitored:
  "js_trim additionalArgs = [] \<Longrightarrow>
   dockerArgs ws sslLibExists sslLibPath sslLibVersion outputDir configDir dockerImage
     serverUrl apiKey patterns additionalArgs
   = dockerArgs ws sslLibExists sslLibPath sslLibVersion outputDir configDir dockerImage
     serverUrl apiKey patterns []"
  by (simp add: dockerArgs_def js_trim_def)

text \<open>
  Claim C10. The launch commands built by \<^verbatim>\<open>dockerRunCmd\<close> are filtered and never hold an
  empty argument, and blank extra arguments leave every launch command as it is without
  them (the lemmas above). The monitoring action does not filter its arguments: with
  \<^verbatim>\<open>additional-args\<close> set to \<^verbatim>\<open>--foo  --bar\<close> (two spaces) the container is launched with
  an empty argument between \<^verbatim>\<open>--foo\<close> and \<^verbatim>\<open>--bar\<close>.
\<close>

theorem empty_arg_two_spaces:
  "hd (exec_calls (trace (run_monitored E_two_spaces))) =
     [''run'', ''-d'', ''--name'', ''roc-test'', ''--privileged'', ''--pid=host'',
      ''--network=host'', ''-v'', ''/proc:/proc'', ''-v'', ''/sys:/sys'',
      ''-v'', ''/lib/x86_64-linux-gnu/libssl.so.3:/usr/lib64/libssl.so.3'',
      ''-v'', ''/lib/x86_64-linux-gnu/libcrypto.so.3:/usr/lib64/libcrypto.so.3'',
      ''-v'', ''/w/roc-output:/tmp/roc-output'', ''-v'', ''/w/roc-config:/tmp/roc-config:ro'',
      ''hanshal785/roc:v5'', ''--server-url'', ''https://x'', ''--api-key'', ''k'',
      ''--patterns'', ''/tmp/roc-config/p.yaml'', ''--watch'', ''/tmp/roc-output'',
      ''--foo'', [], ''--bar'']
   \<and> [] \<in> set (hd (exec_calls (trace (run_monitored E_two_spaces))))"
  by code_simp

section \<open>Missing required inputs\<close>

lemma missing_detached:
  assumes "absent E ''patterns_yaml'' \<or> absent E ''docker_image'' \<or> absent E ''server_url''
           \<or> absent E ''api_key''"
  shows "\<exists>msg. run_detached_body E n = (Inl (JsError msg), [])"
  using assms unfolding run_detached_body_def
  by (cases "absent E ''patterns_yaml''"; cases "absent E ''docker_image''";
      cases "absent E ''server_url''"; cases "absent E ''api_key''";
      simp add: getInput_absent getInput_present seq_Inl seq_Inr)

lemma missing_traffic:
  assumes "absent E ''patterns_yaml'' \<or> absent E ''docker_image'' \<or> absent E ''server_url''
           \<or> absent E ''api_key''"
  shows "\<exists>msg. run_traffic_body E n = (Inl (JsError msg), [])"
  using assms unfolding run_traffic_body_def
  by (cases "absent E ''patterns_yaml''"; cases "absent E ''docker_image''";
      cases "absent E ''server_url''"; cases "absent E ''api_key''";
      simp add: getInput_absent getInput_present seq_Inl seq_Inr)

lemma missing_monitored:
  assumes "absent E ''server-url'' \<or> absent E ''api-key'' \<or> absent E ''patterns''"
  shows "\<exists>msg. run_monitored_body E n = (Inl (JsError msg), [])"
  using assms unfolding run_monitored_body_def
  by (cases "absent E ''server-url''"; cases "absent E ''api-key''";
      cases "absent E ''patterns''";
      simp add: getInput_absent getInput_present seq_Inl seq_Inr)

lemma cleanup_calls:
  "set (exec_calls (snd (cleanupContainer E n)))
     \<subseteq> {[''stop'', ''roc-test''], [''rm'', ''roc-test'']}"
  by (auto simp add: cleanupContainer_def try_catch_def seq_def exec_def info_def warning_def
        emit_def Let_def split: prod.splits sum.splits proc_outcome.splits if_splits)

text \<open>
  Claim C3. When a required input is absent, the run fails before any external call is
  issued: the report of the failure is the first event of the run. In the two actions
  without cleanup it is the only event. In the monitoring action the error is logged and
  the cleanup follows, and the external calls of the run are those of the cleanup, after
  the failure.
\<close>

theorem missing_input_fails_before_any_call:
  "(absent E ''patterns_yaml'' \<or> absent E ''docker_image'' \<or> absent E ''server_url''
      \<or> absent E ''api_key''
    \<longrightarrow> (\<exists>msg. trace (run_detached E) = [SetFailed msg])
        \<and> (\<exists>msg. trace (run_traffic E) = [SetFailed msg]))
   \<and> (absent E ''server-url'' \<or> absent E ''api-key'' \<or> absent E ''patterns''
    \<longrightarrow> (\<exists>msg. trace (run_monitored E) =
                 SetFailed msg # ErrorLog (''Error: '' @ msg) # trace (cleanupContainer E))
        \<and> set (exec_calls (trace (cleanupContainer E)))
            \<subseteq> {[''stop'', ''roc-test''], [''rm'', ''roc-test'']})"
proof (intro conjI impI)
  assume a: "absent E ''patterns_yaml'' \<or> absent E ''docker_image'' \<or> absent E ''server_url''
      \<or> absent E ''api_key''"
  from missing_detached[OF a, of 0] obtain msg where
    "run_detached_body E 0 = (Inl (JsError msg), [])" by blast
  then show "\<exists>msg. trace (run_detached E) = [SetFailed msg]"
    by (simp add: trace_def run_detached_def try_catch_Inl setFailed_def emit_def)
  from missing_traffic[OF a, of 0] obtain msg where
    "run_traffic_body E 0 = (Inl (JsError msg), [])" by blast
  then show "\<exists>msg. trace (run_traffic E) = [SetFailed msg]"
    by (simp add: trace_def run_traffic_def try_catch_Inl setFailed_def emit_def)
next
  assume a: "absent E ''server-url'' \<or> absent E ''api-key'' \<or> absent E ''patterns''"
  from missing_monitored[OF a, of 0] obtain msg where
    b: "run_monitored_body E 0 = (Inl (JsError msg), [])" by blast
  show "\<exists>msg. trace (run_monitored E) =
            SetFailed msg # ErrorLog (''Error: '' @ msg) # trace (cleanupContainer E)"
    unfolding trace_def run_monitored_def snd_try_finally
    by (simp add: try_catch_Inl b seq_def setFailed_def errorLog_def emit_def stack_of_def)
next
  show "set (exec_calls (trace (cleanupContainer E)))
          \<subseteq> {[''stop'', ''roc-test''], [''rm'', ''roc-test'']}"
    unfolding trace_def by (rule cleanup_calls)
qed

theorem missing_input_witness:
  "absent E_no_key ''api_key'' \<and> absent E_no_key ''api-key''
   \<and> (\<exists>msg. trace (run_detached E_no_key) = [SetFailed msg])
   \<and> (\<exists>msg. trace (run_traffic E_no_key) = [SetFailed msg])
   \<and> (\<exists>msg. trace (run_monitored E_no_key) =
                 SetFailed msg # ErrorLog (''Error: '' @ msg) # trace (cleanupContainer E_no_key))"
proof -
  have a: "absent E_no_key ''api_key''" and b: "absent E_no_key ''api-key''"
    by (simp_all add: absent_def E_no_key_def host_def)
  from a b missing_input_fails_before_any_call[of E_no_key] show ?thesis
    by blast
qed

section \<open>The monitor loop\<close>

lemma inspections_append [simp]: "inspections (xs @ ys) = inspections xs @ inspections ys"
  by (induction xs rule: inspections.induct) auto

lemma exec_calls_append [simp]: "exec_calls (xs @ ys) = exec_calls xs @ exec_calls ys"
  by (induction xs rule: exec_calls.induct) auto

lemma monitor_iteration_eq:
  "\<exists>evs. monitor_iteration E containerId n =
     (Inr (if terminal (runtime E n ''docker'' (inspect_args containerId))
              \<or> status_of (runtime E n ''docker'' (inspect_args containerId)) = None
           then Break else Continue),
      Exec ''docker'' (inspect_args containerId) (runtime E n ''docker'' (inspect_args containerId)) # evs)
     \<and> calls evs = 0 \<and> exec_calls evs = [] \<and> inspections evs = []"
  by (cases "runtime E n ''docker'' (inspect_args containerId)")
     (auto simp add: monitor_iteration_def try_catch_def seq_def exec_def info_def warning_def sleep_def
        emit_def ret_def Let_def terminal_def status_of_def inspect_args_def)

lemma polled_Nil: "polled 0 []"
  by (simp add: polled_def)

lemma polled_stop: "ends_polling out \<Longrightarrow> 0 < b \<Longrightarrow> polled b [out]"
  by (simp add: polled_def)

lemma polled_go:
  assumes "\<not> ends_polling out" "polled b outs"
  shows "polled (Suc b) (out # outs)"
proof -
  have "Suc k = Suc (length outs)"
    if "k < Suc (length outs)" "ends_polling ((out # outs) ! k)" for k
  proof (cases k)
    case 0
    with that assms show ?thesis by simp
  next
    case (Suc j)
    with that assms show ?thesis by (simp add: polled_def)
  qed
  moreover have "ends_polling (last (out # outs))" if "length outs < b"
    using that assms by (auto simp add: polled_def)
  ultimately show ?thesis
    using assms by (simp add: polled_def)
qed

lemma monitor_loop_polled:
  "fst (monitor_loop E containerId i n) = Inr ()
   \<and> polled (30 - i) (inspections (snd (monitor_loop E containerId i n)))
   \<and> exec_calls (snd (monitor_loop E containerId i n)) =
       replicate (length (inspections (snd (monitor_loop E containerId i n))))
         (inspect_args containerId)
   \<and> calls (snd (monitor_loop E containerId i n)) =
       length (inspections (snd (monitor_loop E containerId i n)))"
proof (induction E containerId i arbitrary: n rule: monitor_loop.induct)
  case (1 E containerId i)
  let ?out = "runtime E n ''docker'' (inspect_args containerId)"
  show ?case
  proof (cases "i < 30")
    case False
    then show ?thesis
      by (simp add: monitor_loop.simps[of E containerId i] ret_def polled_Nil)
  next
    case True
    obtain evs where it: "monitor_iteration E containerId n =
       (Inr (if terminal ?out \<or> status_of ?out = None then Break else Continue),
        Exec ''docker'' (inspect_args containerId) ?out # evs)"
      and evs: "calls evs = 0" "exec_calls evs = []" "inspections evs = []"
      using monitor_iteration_eq[of E containerId n] by blast
    have e: "snd (monitor_iteration E containerId n) =
          Exec ''docker'' (inspect_args containerId) ?out # evs"
      using it by simp
    have insp: "inspections (Exec ''docker'' (inspect_args containerId) out # xs) =
          out # inspections xs" for out xs
      by (simp add: inspect_args_def)
    show ?thesis
    proof (cases "ends_polling ?out")
      case stop: True
      then have f: "fst (monitor_iteration E containerId n) = Inr Break"
        using it by (simp add: ends_polling_def)
      have "monitor_loop E containerId i n =
              (Inr (), Exec ''docker'' (inspect_args containerId) ?out # evs)"
        using True by (simp add: monitor_loop.simps[of E containerId i] seq_Inr f e ret_def)
      then show ?thesis
        using evs True stop polled_stop[of ?out "30 - i"] by (simp add: insp del: inspections.simps)
    next
      case go: False
      let ?rest = "monitor_loop E containerId (Suc i) (Suc n)"
      from go have f: "fst (monitor_iteration E containerId n) = Inr Continue"
        using it by (simp add: ends_polling_def)
      have eq: "monitor_loop E containerId i n =
         (fst ?rest, (Exec ''docker'' (inspect_args containerId) ?out # evs) @ snd ?rest)"
        using True evs by (simp add: monitor_loop.simps[of E containerId i] seq_Inr f e)
      note IH = "1.IH"[OF True, of "Suc n"]
      have b: "30 - i = Suc (30 - Suc i)"
        using True by simp
      have i: "inspections (snd (monitor_loop E containerId i n)) = ?out # inspections (snd ?rest)"
        unfolding eq using evs by (simp add: insp del: inspections.simps)
      have "polled (30 - i) (inspections (snd (monitor_loop E containerId i n)))"
        unfolding i b using go IH by (intro polled_go) simp_all
      moreover have "exec_calls (snd (monitor_loop E containerId i n)) =
         replicate (length (inspections (snd (monitor_loop E containerId i n)))) (inspect_args containerId)"
        unfolding i unfolding eq using evs IH by simp
      moreover have "calls (snd (monitor_loop E containerId i n)) =
         length (inspections (snd (monitor_loop E containerId i n)))"
        unfolding i unfolding eq using evs IH by simp
      moreover have "fst (monitor_loop E containerId i n) = Inr ()"
        unfolding eq using IH by simp
      ultimately show ?thesis by blast
    qed
  qed
qed


lemma monitorContainer_eq:
  "monitorContainer E containerId n =
     (case runtime E (n + calls (snd (monitor_loop E containerId 0 n))) ''docker'' [''logs'', containerId] of
        Exit code chunks \<Rightarrow> if code \<noteq> 0 then Inl (JsError (''The process '' @ [CHR 0x27] @ ''docker'' @ [CHR 0x27] @
                             '' failed with exit code '' @ show_int code)) else Inr ()
      | SpawnFail msg \<Rightarrow> Inl (JsError msg),
      Info ''Monitoring ROC container...'' # snd (monitor_loop E containerId 0 n)
        @ [Exec ''docker'' [''logs'', containerId]
             (runtime E (n + calls (snd (monitor_loop E containerId 0 n))) ''docker'' [''logs'', containerId])])"
proof -
  have l: "fst (monitor_loop E containerId 0 n) = Inr ()"
    using monitor_loop_polled[of E containerId 0 n] by simp
  have i: "info msg k = (Inr (), [Info msg])" for msg k
    by (simp add: info_def emit_def)
  show ?thesis
    unfolding monitorContainer_def
    by (simp add: seq_Inr i l)
       (simp add: seq_def exec_def ret_def Let_def split: proc_outcome.splits)
qed

text \<open>
  Claim C5. In every environment and from every point of a run, \<^verbatim>\<open>monitorContainer\<close>
  returns after at most 30 status inspections (and at least one). An inspection with the
  terminal status \<^verbatim>\<open>running\<close> or \<^verbatim>\<open>exited\<close> is the last one, so the loop stops at the
  first of them; when fewer than 30 inspections are made, the last one ended the polling
  (terminal status, or a failed call). The external calls of the monitor are these
  inspections followed by one \<^verbatim>\<open>logs\<close> call.
\<close>

theorem monitor_bounded:
  "length (inspections (snd (monitorContainer E containerId n))) \<le> 30
   \<and> inspections (snd (monitorContainer E containerId n)) \<noteq> []
   \<and> (\<forall>k < length (inspections (snd (monitorContainer E containerId n))).
         terminal (inspections (snd (monitorContainer E containerId n)) ! k)
         \<longrightarrow> Suc k = length (inspections (snd (monitorContainer E containerId n))))
   \<and> (length (inspections (snd (monitorContainer E containerId n))) < 30
         \<longrightarrow> ends_polling (last (inspections (snd (monitorContainer E containerId n)))))
   \<and> exec_calls (snd (monitorContainer E containerId n)) =
       replicate (length (inspections (snd (monitorContainer E containerId n))))
         (inspect_args containerId) @ [[''logs'', containerId]]"
proof -
  let ?loop = "snd (monitor_loop E containerId 0 n)"
  have i: "inspections (snd (monitorContainer E containerId n)) = inspections ?loop"
    by (simp add: monitorContainer_eq)
  have c: "exec_calls (snd (monitorContainer E containerId n)) =
             exec_calls ?loop @ [[''logs'', containerId]]"
    by (simp add: monitorContainer_eq)
  from monitor_loop_polled[of E containerId 0 n]
  have p: "polled 30 (inspections ?loop)"
    and x: "exec_calls ?loop = replicate (length (inspections ?loop)) (inspect_args containerId)"
    by simp_all
  show ?thesis
    unfolding i c x using p by (simp add: polled_def ends_polling_def)
qed

theorem monitor_bounded_witness:
  "terminal (inspections (snd (monitorContainer E_slow ''abc123'' 0)) ! 2)
   \<and> length (inspections (snd (monitorContainer E_slow ''abc123'' 0))) = 3"
proof -
  have i: "inspections (snd (monitorContainer E_slow ''abc123'' 0)) =
             [Exit 0 [Stdout (''created'' @ [CHR 0x0A])],
              Exit 0 [Stdout (''created'' @ [CHR 0x0A])],
              Exit 0 [Stdout ''run'', Stdout (''ning'' @ [CHR 0x0A])]]"
    by (simp add: run_simps monitorContainer_def monitor_loop.simps monitor_iteration_def
          E_slow_def host_def docker_slow_def js_trim_def js_space_def)
  have a: "2 < length (inspections (snd (monitorContainer E_slow ''abc123'' 0)))"
    by (simp add: i)
  have b: "terminal (inspections (snd (monitorContainer E_slow ''abc123'' 0)) ! 2)"
    by (simp add: i terminal_def status_of_def js_trim_def js_space_def)
  have "Suc 2 = length (inspections (snd (monitorContainer E_slow ''abc123'' 0)))"
    using a b monitor_bounded[of E_slow "''abc123''" 0] by blast
  with b show ?thesis by simp
qed

section \<open>Events of composite actions\<close>

named_theorems emits_intros

lemma emits_ret [emits_intros]: "emits P (ret x)"
  by (simp add: emits_def ret_def)

lemma emits_throw [emits_intros]: "emits P (throw e)"
  by (simp add: emits_def throw_def)

lemma emits_emit: "P e \<Longrightarrow> emits P (emit e)"
  by (simp add: emits_def emit_def)

lemma emits_seq [emits_intros]:
  assumes "emits P m" "\<And>x. returns m x \<Longrightarrow> emits P (f x)"
  shows "emits P (seq m f)"
  unfolding emits_def
proof (intro allI ballI)
  fix n e assume e: "e \<in> set (snd (seq m f n))"
  show "P e"
  proof (cases "fst (m n)")
    case (Inl err)
    with e assms(1) show ?thesis by (simp add: seq_Inl emits_def)
  next
    case (Inr x)
    then have "returns m x" by (auto simp add: returns_def)
    with e Inr assms show ?thesis by (auto simp add: seq_Inr emits_def)
  qed
qed

lemma emits_try_catch [emits_intros]:
  assumes "emits P m" "\<And>e. emits P (h e)"
  shows "emits P (try_catch m h)"
  unfolding emits_def
proof (intro allI ballI)
  fix n e assume e: "e \<in> set (snd (try_catch m h n))"
  show "P e"
  proof (cases "fst (m n)")
    case (Inl err)
    with e assms show ?thesis by (auto simp add: try_catch_Inl emits_def)
  next
    case (Inr x)
    with e assms show ?thesis by (auto simp add: try_catch_Inr emits_def)
  qed
qed

lemma emits_try_finally [emits_intros]:
  assumes "emits P m" "emits P fin"
  shows "emits P (try_finally m fin)"
  using assms by (auto simp add: emits_def snd_try_finally)

lemma emits_if [emits_intros]:
  "(c \<Longrightarrow> emits P a) \<Longrightarrow> (\<not> c \<Longrightarrow> emits P b) \<Longrightarrow> emits P (if c then a else b)"
  by simp

lemma emits_Let [emits_intros]: "emits P (f v) \<Longrightarrow> emits P (Let v f)"
  by simp

lemma emits_case_prod [emits_intros]:
  "(\<And>a b. x = (a, b) \<Longrightarrow> emits P (f a b)) \<Longrightarrow> emits P (case_prod f x)"
  by (cases x) simp

lemma emits_case_loop_exit [emits_intros]:
  "emits P a \<Longrightarrow> emits P b \<Longrightarrow> emits P (case c of Break \<Rightarrow> a | Continue \<Rightarrow> b)"
  by (cases c) simp_all

lemma emits_getInput [emits_intros]: "emits P (getInput E name required)"
  by (simp add: getInput_def Let_def emits_ret emits_throw)

lemma emits_getInput_or [emits_intros]: "emits P (getInput_or E name dflt)"
  unfolding getInput_or_def by (intro emits_intros)

lemma emits_info [emits_intros]: "P (Info msg) \<Longrightarrow> emits P (info msg)"
  by (simp add: info_def emits_emit)

lemma emits_warning [emits_intros]: "P (Warning msg) \<Longrightarrow> emits P (warning msg)"
  by (simp add: warning_def emits_emit)

lemma emits_errorLog [emits_intros]: "P (ErrorLog msg) \<Longrightarrow> emits P (errorLog msg)"
  by (simp add: errorLog_def emits_emit)

lemma emits_consoleLog [emits_intros]: "P (ConsoleLog msg) \<Longrightarrow> emits P (consoleLog msg)"
  by (simp add: consoleLog_def emits_emit)

lemma emits_setFailed [emits_intros]: "P (SetFailed msg) \<Longrightarrow> emits P (setFailed msg)"
  by (simp add: setFailed_def emits_emit)

lemma emits_setOutput [emits_intros]: "P (SetOutput name v) \<Longrightarrow> emits P (setOutput name v)"
  by (simp add: setOutput_def emits_emit)

lemma emits_sleep [emits_intros]: "P (Sleep ms) \<Longrightarrow> emits P (sleep ms)"
  by (simp add: sleep_def emits_emit)

lemma emits_exec [emits_intros]:
  "(\<And>out. P (Exec tool args out)) \<Longrightarrow> emits P (exec E tool args ignoreReturnCode)"
  by (simp add: emits_def exec_def Let_def)

lemma emits_ensureDir [emits_intros]: "P (EnsureDir p) \<Longrightarrow> emits P (ensureDir E p)"
  by (simp add: ensureDir_def emits_emit emits_throw split: option.splits)

lemma emits_writeFile [emits_intros]:
  "P (WriteFile p content) \<Longrightarrow> emits P (writeFile E p content)"
  by (simp add: writeFile_def emits_emit emits_throw split: option.splits)

lemma emits_readdir [emits_intros]: "emits P (readdir E p)"
  by (simp add: readdir_def emits_ret emits_throw split: sum.splits)

lemma emits_readFile [emits_intros]: "emits P (readFile E p)"
  by (simp add: readFile_def emits_ret emits_throw split: sum.splits)

lemma emits_join_workspace [emits_intros]: "emits P (join_workspace ws parts)"
  by (simp add: join_workspace_def emits_ret emits_throw split: option.splits)

lemma emits_monitor_loop [emits_intros]:
  assumes "\<And>out. P (Exec ''docker'' (inspect_args containerId) out)"
    "\<And>msg. P (Info msg)" "\<And>msg. P (Warning msg)" "\<And>ms. P (Sleep ms)"
  shows "emits P (monitor_loop E containerId i)"
  using assms
proof (induction E containerId i rule: monitor_loop.induct)
  case (1 E containerId i)
  have it: "emits P (monitor_iteration E containerId)"
    unfolding monitor_iteration_def
    by (intro emits_intros) (use "1.prems" in \<open>simp_all add: inspect_args_def\<close>)
  show ?case
  proof (cases "i < 30")
    case True
    with 1 it show ?thesis
      by (subst monitor_loop.simps) (auto intro!: emits_intros)
  next
    case False
    then show ?thesis
      by (subst monitor_loop.simps) (simp add: emits_ret)
  qed
qed

lemma emits_weaken: "emits P m \<Longrightarrow> (\<And>e. P e \<Longrightarrow> Q e) \<Longrightarrow> emits Q m"
  by (auto simp add: emits_def)

lemma failures_append [simp]: "failures (xs @ ys) = failures xs @ failures ys"
  by (induction xs rule: failures.induct) auto

lemma failures_empty: "\<forall>e \<in> set evs. failures [e] = [] \<Longrightarrow> failures evs = []"
  by (induction evs rule: failures.induct) auto

lemma emits_failures_empty: "emits (\<lambda>e. failures [e] = []) m \<Longrightarrow> failures (snd (m n)) = []"
  unfolding emits_def by (rule failures_empty) blast

lemma fst_try_finally:
  "fst (fin (n + calls (snd (m n)))) = Inr u \<Longrightarrow> fst (try_finally m fin n) = fst (m n)"
  by (cases "m n"; cases "fin (n + calls (snd (m n)))")
     (auto simp add: try_finally_def)

section \<open>Cleanup\<close>

lemma emits_main_body: "emits main_event (run_monitored_body E)"
  unfolding run_monitored_body_def checkSslLibraries_def monitorContainer_def
    getOutputFiles_def getContainerLogs_def
  by (intro emits_intros) (simp_all add: main_event_def dockerArgs_def inspect_args_def)

lemma cleanupContainer_eq:
  "cleanupContainer E n =
     (Inr (), cleanup_trace (runtime E n ''docker'' [''stop'', ''roc-test''])
                (runtime E (Suc n) ''docker'' [''rm'', ''roc-test'']))"
  by (simp add: cleanupContainer_def cleanup_trace_def run_simps
        split: proc_outcome.splits)

lemma guarded_trace:
  "snd (try_catch (run_monitored_body E)
          (\<lambda>error. seq (setFailed (message error)) (\<lambda>_. errorLog (stack_of error))) n)
   = snd (run_monitored_body E n) @
     (case fst (run_monitored_body E n) of
        Inl e \<Rightarrow> [SetFailed (message e), ErrorLog (stack_of e)]
      | Inr u \<Rightarrow> [])"
  by (cases "fst (run_monitored_body E n)")
     (simp_all add: try_catch_Inl try_catch_Inr seq_def setFailed_def errorLog_def emit_def)




section \<open>Values returned and events seen\<close>

lemma returns_getInput [simp]:
  "returns (getInput E name required) x \<longleftrightarrow>
     \<not> (required \<and> absent E name) \<and> x = input_value E name"
  by (auto simp add: returns_def getInput_def input_value_def absent_def throw_def ret_def Let_def
        split: option.splits)

lemma returns_ret [simp]: "returns (ret x) y \<longleftrightarrow> y = x"
  by (auto simp add: returns_def ret_def)

lemma returns_seq:
  "returns (seq m f) y \<longleftrightarrow> (\<exists>x n. fst (m n) = Inr x \<and> fst (f x (n + calls (snd (m n)))) = Inr y)"
  unfolding returns_def
proof
  assume "\<exists>n. fst (seq m f n) = Inr y"
  then obtain n where n: "fst (seq m f n) = Inr y" ..
  show "\<exists>x n. fst (m n) = Inr x \<and> fst (f x (n + calls (snd (m n)))) = Inr y"
  proof (cases "fst (m n)")
    case (Inl e)
    with n show ?thesis by (simp add: seq_Inl)
  next
    case (Inr x)
    with n show ?thesis by (auto simp add: seq_Inr)
  qed
next
  assume "\<exists>x n. fst (m n) = Inr x \<and> fst (f x (n + calls (snd (m n)))) = Inr y"
  then obtain x n where "fst (m n) = Inr x" "fst (f x (n + calls (snd (m n)))) = Inr y"
    by blast
  then have "fst (seq m f n) = Inr y"
    by (simp add: seq_Inr)
  then show "\<exists>n. fst (seq m f n) = Inr y" ..
qed

lemma returns_getInput_or [simp]:
  "returns (getInput_or E name dflt) x \<longleftrightarrow> x = js_or (input_value E name) dflt"
  by (auto simp add: getInput_or_def returns_seq getInput_def input_value_def ret_def Let_def)

lemma returns_join_workspace [simp]:
  "returns (join_workspace (workspace E) parts) x \<longleftrightarrow>
     workspace E \<noteq> None \<and> x = path_join (workspace_of E # parts)"
  by (auto simp add: returns_def join_workspace_def workspace_of_def throw_def ret_def
        split: option.splits)

lemma returns_readdir [simp]: "returns (readdir E p) names \<longleftrightarrow> dir_read E p = Inr names"
  by (auto simp add: returns_def readdir_def throw_def ret_def split: sum.splits)

lemma when_seen_quiet:
  assumes "emits (\<lambda>e. \<not> Q e) m"
  shows "when_seen Q R m"
  unfolding when_seen_def
proof (intro allI impI, elim conjE)
  fix n pre e post
  assume "snd (m n) = pre @ e # post" and e: "Q e"
  then have "e \<in> set (snd (m n))" by simp
  with assms e show "R e (fst (m n)) post"
    by (auto simp add: emits_def)
qed

lemma when_seen_seq:
  assumes q: "emits (\<lambda>e. \<not> Q e) m"
    and f: "\<And>x. returns m x \<Longrightarrow> when_seen Q R (f x)"
  shows "when_seen Q R (seq m f)"
  unfolding when_seen_def
proof (intro allI impI, elim conjE)
  fix n pre e post
  assume s: "snd (seq m f n) = pre @ e # post" and e: "Q e"
  from q have nq: "\<forall>e \<in> set (snd (m n)). \<not> Q e"
    by (simp add: emits_def)
  show "R e (fst (seq m f n)) post"
  proof (cases "fst (m n)")
    case (Inl err)
    with s nq e show ?thesis by (auto simp add: seq_Inl)
  next
    case (Inr x)
    let ?k = "n + calls (snd (m n))"
    from Inr s have eq: "snd (m n) @ snd (f x ?k) = pre @ e # post"
      by (simp add: seq_Inr)
    then obtain us where "(snd (m n) @ us = pre \<and> snd (f x ?k) = us @ e # post)
        \<or> (snd (m n) = pre @ us \<and> us @ snd (f x ?k) = e # post)"
      by (auto simp add: append_eq_append_conv2)
    then have "\<exists>pre'. snd (f x ?k) = pre' @ e # post"
    proof
      assume "snd (m n) @ us = pre \<and> snd (f x ?k) = us @ e # post"
      then show ?thesis by blast
    next
      assume a: "snd (m n) = pre @ us \<and> us @ snd (f x ?k) = e # post"
      show ?thesis
      proof (cases us)
        case Nil
        with a show ?thesis by auto
      next
        case (Cons u us')
        with a have "e \<in> set (snd (m n))" by auto
        with nq e show ?thesis by blast
      qed
    qed
    then obtain pre' where p: "snd (f x ?k) = pre' @ e # post" ..
    from Inr have "returns m x" by (auto simp add: returns_def)
    from f[OF this] p e have "R e (fst (f x ?k)) post"
      by (auto simp add: when_seen_def)
    with Inr show ?thesis by (simp add: seq_Inr)
  qed
qed

lemma when_seen_Let: "when_seen Q R (f v) \<Longrightarrow> when_seen Q R (Let v f)"
  by simp

lemma when_seen_if:
  "(c \<Longrightarrow> when_seen Q R a) \<Longrightarrow> (\<not> c \<Longrightarrow> when_seen Q R b) \<Longrightarrow> when_seen Q R (if c then a else b)"
  by simp

lemma when_seen_case_prod:
  "(\<And>a b. x = (a, b) \<Longrightarrow> when_seen Q R (f a b)) \<Longrightarrow> when_seen Q R (case_prod f x)"
  by (cases x) simp

lemma when_seen_at:
  "(\<And>n. m n = (r, [e])) \<Longrightarrow> (\<And>k. f () k = (r', post)) \<Longrightarrow> \<forall>e' \<in> set post. \<not> Q e'
   \<Longrightarrow> R e r' post \<Longrightarrow> r = Inr () \<Longrightarrow> when_seen Q R (seq m f)"
  unfolding when_seen_def
  by (auto simp add: seq_def Cons_eq_append_conv)

section \<open>Artifact collection\<close>

lemma emits_print_files [emits_intros]:
  assumes "\<And>msg. P (Info msg)" "\<And>msg. P (ConsoleLog msg)"
  shows "emits P (print_files E dir files)"
  by (induction files) (auto intro!: emits_intros simp add: assms Let_def)

lemma traffic_unreadable:
  assumes "dir_read E (hostOutputDir_of E) = Inl err"
  shows "when_seen (\<lambda>e. e = checking_files) (\<lambda>e r post. r = Inl err \<and> post = [])
           (run_traffic_body E)"
  unfolding run_traffic_body_def
  apply ((rule when_seen_Let | rule when_seen_case_prod | rule when_seen_if
          | (rule when_seen_seq, (intro emits_intros; simp add: checking_files_def; fail))
          | (rule when_seen_quiet, (intro emits_intros; simp add: checking_files_def; fail)))+)
  apply (rule when_seen_at[where r = "Inr ()" and e = checking_files and post = "[]" and r' = "Inl err"])
  using assms
      apply (simp_all add: info_def emit_def checking_files_def seq_def readdir_def throw_def
        hostOutputDir_of_def)
  done


lemma traffic_empty:
  assumes "dir_read E (hostOutputDir_of E) = Inr []"
  shows "when_seen (\<lambda>e. e = checking_files)
           (\<lambda>e r post. r = Inr () \<and>
              post = [Info ''No output files found in the host output directory.'',
                      SetOutput ''container_name'' (containerName_of E)])
           (run_traffic_body E)"
  unfolding run_traffic_body_def
  apply ((rule when_seen_Let | rule when_seen_case_prod | rule when_seen_if
          | (rule when_seen_seq, (intro emits_intros; simp add: checking_files_def; fail))
          | (rule when_seen_quiet, (intro emits_intros; simp add: checking_files_def; fail)))+)
  apply (rule when_seen_at[where r = "Inr ()" and e = checking_files and r' = "Inr ()"
           and post = "[Info ''No output files found in the host output directory.'',
                      SetOutput ''container_name'' (containerName_of E)]"])
  using assms
      apply (simp_all add: info_def emit_def checking_files_def seq_def readdir_def ret_def
        setOutput_def hostOutputDir_of_def containerName_of_def)
  done

lemma getOutputFiles_empty:
  "dir_read E outputDir = Inr [] \<Longrightarrow> getOutputFiles E outputDir n = (Inr [], [])"
  by (simp add: getOutputFiles_def try_catch_def seq_def readdir_def ret_def)

lemma getOutputFiles_unreadable:
  "dir_read E outputDir = Inl err \<Longrightarrow>
   getOutputFiles E outputDir n =
     (Inr [], [Warning (''Could not read output directory: '' @ message err)])"
  by (simp add: getOutputFiles_def try_catch_def seq_def readdir_def throw_def warning_def
        emit_def ret_def)

lemma traffic_trace:
  "trace (run_traffic E) =
     snd (run_traffic_body E 0) @
     (case fst (run_traffic_body E 0) of Inl e \<Rightarrow> [SetFailed (message e)] | Inr u \<Rightarrow> [])"
  by (cases "fst (run_traffic_body E 0)")
     (simp_all add: trace_def run_traffic_def try_catch_Inl try_catch_Inr setFailed_def emit_def)

text \<open>
  Claim C9, as amended. \<^verbatim>\<open>getOutputFiles\<close> of the monitoring action fails soft: on an
  empty output directory it returns the empty string and logs nothing, on an unreadable one
  it returns the empty string after a warning, and it never throws. The action that
  simulates traffic reads the output directory without a guard of its own: once it has
  logged that it checks for output files, an empty directory ends the run with the message
  that no output files were found and the output \<^verbatim>\<open>container_name\<close>, without an error, while
  an unreadable directory ends it with the error reported by \<^verbatim>\<open>setFailed\<close>.
\<close>

theorem artifact_collection:
  "(dir_read E outputDir = Inr [] \<longrightarrow> getOutputFiles E outputDir n = (Inr [], []))
   \<and> (dir_read E outputDir = Inl err \<longrightarrow>
        getOutputFiles E outputDir n =
          (Inr [], [Warning (''Could not read output directory: '' @ message err)]))
   \<and> (dir_read E (hostOutputDir_of E) = Inr [] \<and> checking_files \<in> set (trace (run_traffic E))
        \<longrightarrow> suffix [checking_files,
                     Info ''No output files found in the host output directory.'',
                     SetOutput ''container_name'' (containerName_of E)]
                    (trace (run_traffic E))
            \<and> outcome (run_traffic_body E) = Inr ())
   \<and> (dir_read E (hostOutputDir_of E) = Inl err \<and> checking_files \<in> set (trace (run_traffic E))
        \<longrightarrow> suffix [checking_files, SetFailed (message err)] (trace (run_traffic E)))"
proof (intro conjI impI)
  assume "dir_read E outputDir = Inr []"
  then show "getOutputFiles E outputDir n = (Inr [], [])"
    by (rule getOutputFiles_empty)
next
  assume "dir_read E outputDir = Inl err"
  then show "getOutputFiles E outputDir n =
          (Inr [], [Warning (''Could not read output directory: '' @ message err)])"
    by (rule getOutputFiles_unreadable)
next
  define B where "B = snd (run_traffic_body E 0)"
  define r where "r = fst (run_traffic_body E 0)"
  have tr: "trace (run_traffic E) =
              B @ (case r of Inl e \<Rightarrow> [SetFailed (message e)] | Inr u \<Rightarrow> [])"
    unfolding B_def r_def by (rule traffic_trace)
  have inB: "checking_files \<in> set B" if "checking_files \<in> set (trace (run_traffic E))"
    using that unfolding tr by (auto simp add: checking_files_def split: sum.splits)
  {
    assume a: "dir_read E (hostOutputDir_of E) = Inr [] \<and> checking_files \<in> set (trace (run_traffic E))"
    then obtain pre post where p: "B = pre @ checking_files # post"
      using inB by (auto simp add: in_set_conv_decomp)
    from traffic_empty[of E] a p have "r = Inr ()"
      and "post = [Info ''No output files found in the host output directory.'',
                      SetOutput ''container_name'' (containerName_of E)]"
      unfolding when_seen_def B_def r_def by blast+
    with p show "suffix [checking_files,
                     Info ''No output files found in the host output directory.'',
                     SetOutput ''container_name'' (containerName_of E)]
                    (trace (run_traffic E))"
      and "outcome (run_traffic_body E) = Inr ()"
      unfolding tr by (simp_all add: suffix_def outcome_def r_def)
  }
  {
    assume a: "dir_read E (hostOutputDir_of E) = Inl err \<and> checking_files \<in> set (trace (run_traffic E))"
    then obtain pre post where p: "B = pre @ checking_files # post"
      using inB by (auto simp add: in_set_conv_decomp)
    from traffic_unreadable[of E err] a p have "r = Inl err" and "post = []"
      unfolding when_seen_def B_def r_def by blast+
    with p show "suffix [checking_files, SetFailed (message err)] (trace (run_traffic E))"
      unfolding tr by (simp add: suffix_def)
  }
qed

theorem artifact_collection_witness:
  "getOutputFiles E_traffic ''roc-output'' 0 = (Inr [], [])
   \<and> getOutputFiles E_unreadable ''roc-output'' 0 =
       (Inr [], [Warning ''Could not read output directory: EACCES: permission denied''])
   \<and> suffix [checking_files,
              Info ''No output files found in the host output directory.'',
              SetOutput ''container_name'' (containerName_of E_traffic)]
             (trace (run_traffic E_traffic))
   \<and> suffix [checking_files, SetFailed ''EACCES: permission denied'']
             (trace (run_traffic E_unreadable))"
proof -
  have a: "dir_read E_traffic p = Inr []"
    and b: "dir_read E_unreadable p = Inl (JsError ''EACCES: permission denied'')" for p
    by (simp_all add: E_unreadable_def E_traffic_def host_def)
  have c: "checking_files \<in> set (trace (run_traffic E_traffic))"
    by (simp add: eval_simps E_traffic_def checking_files_def)
  have d: "checking_files \<in> set (trace (run_traffic E_unreadable))"
    by (simp add: eval_simps E_unreadable_def E_traffic_def checking_files_def)
  from a b c d
    artifact_collection[of E_traffic "''roc-output''" 0 "JsError ''EACCES: permission denied''"]
    artifact_collection[of E_unreadable "''roc-output''" 0 "JsError ''EACCES: permission denied''"]
  show ?thesis
    by simp
qed

text \<open>
  Claim C9 as stated fails on the action that simulates traffic: with an unreadable output
  directory the run is reported as failed and no warning is logged.
\<close>

theorem artifact_collection_counterexample:
  "failures (trace (run_traffic E_unreadable)) = [''EACCES: permission denied'']
   \<and> warnings (trace (run_traffic E_unreadable)) = []
   \<and> last (trace (run_traffic E_unreadable)) = SetFailed ''EACCES: permission denied''"
  by (simp add: eval_simps E_unreadable_def E_traffic_def)

section \<open>The staged pattern file\<close>

lemma writes_append [simp]: "writes (xs @ ys) = writes xs @ writes ys"
  by (induction xs rule: writes.induct) auto

lemma files_after_one_write:
  "\<forall>e \<in> set evs. writes [e] = [] \<or> writes [e] = [(p, c)] \<Longrightarrow>
   files_after fs evs = (if writes evs = [] then fs else fs(p \<mapsto> c))"
proof (induction evs arbitrary: fs)
  case Nil
  then show ?case by simp
next
  case (Cons e evs)
  then have IH: "files_after fs' evs = (if writes evs = [] then fs' else fs'(p \<mapsto> c))" for fs'
    by simp
  from Cons.prems have e: "writes [e] = [] \<or> writes [e] = [(p, c)]"
    by simp
  show ?case
  proof (cases e)
    case (WriteFile q content)
    with e have "q = p" "content = c" by simp_all
    with WriteFile show ?thesis by (simp add: IH fun_eq_iff)
  qed (simp_all add: IH)
qed

lemma writes_nonempty: "writes evs \<noteq> [] \<Longrightarrow> \<exists>e \<in> set evs. writes [e] \<noteq> []"
  by (induction evs rule: writes.induct) auto

lemma emits_stages_detached: "emits (stages E) (run_detached_body E)"
  unfolding run_detached_body_def
  by (intro emits_intros)
     (simp_all add: stages_def hostPatternFilePath_of_def hostConfigDir_of_def)

lemma emits_stages_traffic: "emits (stages E) (run_traffic_body E)"
  unfolding run_traffic_body_def
  by (intro emits_intros)
     (simp_all add: stages_def hostPatternFilePath_of_def hostConfigDir_of_def)

lemma detached_trace:
  "trace (run_detached E) =
     snd (run_detached_body E 0) @
     (case fst (run_detached_body E 0) of Inl e \<Rightarrow> [SetFailed (message e)] | Inr u \<Rightarrow> [])"
  by (cases "fst (run_detached_body E 0)")
     (simp_all add: trace_def run_detached_def try_catch_Inl try_catch_Inr setFailed_def emit_def)

lemma staged_content:
  assumes "emits (stages E) body"
    and "tr = snd (body 0) @ (case fst (body 0) of Inl e \<Rightarrow> [SetFailed (message e)] | Inr u \<Rightarrow> [])"
    and "writes tr \<noteq> []"
  shows "\<exists>v. inputs E ''patterns_yaml'' = Some v
           \<and> files_after fs tr = fs(hostPatternFilePath_of E \<mapsto> js_trim v)"
proof -
  have s: "stages E e" if "e \<in> set tr" for e
    using that assms(1) unfolding assms(2) emits_def stages_def
    by (auto split: sum.splits)
  from assms(3) obtain e where e: "e \<in> set tr" "writes [e] \<noteq> []"
    using writes_nonempty by blast
  with s[of e] have p: "\<not> absent E ''patterns_yaml''"
    by (auto simp add: stages_def)
  then obtain v where v: "inputs E ''patterns_yaml'' = Some v"
    by (auto simp add: absent_def)
  have "\<forall>e \<in> set tr. writes [e] = [] \<or>
          writes [e] = [(hostPatternFilePath_of E, input_value E ''patterns_yaml'')]"
    using s by (auto simp add: stages_def)
  from files_after_one_write[OF this, of fs] assms(3) v show ?thesis
    by (simp add: input_value_def)
qed

text \<open>
  Claim C4, as amended. Whenever one of the two actions that stage the pattern file writes
  to the host at all, the patterns input is supplied and, whatever the host held before,
  the files of the host after the run are those it held with the pattern file replaced by
  the supplied content with its leading and trailing white space trimmed (the value that
  \<^verbatim>\<open>getInput\<close> delivers). For a content without leading or trailing white space this is the
  supplied content itself.
\<close>

theorem pattern_file_content:
  "(writes (trace (run_detached E)) \<noteq> [] \<longrightarrow>
      (\<exists>v. inputs E ''patterns_yaml'' = Some v
         \<and> files_after fs (trace (run_detached E)) = fs(hostPatternFilePath_of E \<mapsto> js_trim v)))
   \<and> (writes (trace (run_traffic E)) \<noteq> [] \<longrightarrow>
      (\<exists>v. inputs E ''patterns_yaml'' = Some v
         \<and> files_after fs (trace (run_traffic E)) = fs(hostPatternFilePath_of E \<mapsto> js_trim v)))"
  using staged_content[OF emits_stages_detached detached_trace]
    staged_content[OF emits_stages_traffic traffic_trace]
  by blast

theorem pattern_file_content_witness:
  "writes (trace (run_detached E_traffic)) \<noteq> []
   \<and> writes (trace (run_traffic E_traffic)) \<noteq> []
   \<and> (\<exists>v. inputs E_traffic ''patterns_yaml'' = Some v
         \<and> files_after no_files (trace (run_detached E_traffic)) =
             no_files(hostPatternFilePath_of E_traffic \<mapsto> js_trim v))
   \<and> (\<exists>v. inputs E_traffic ''patterns_yaml'' = Some v
         \<and> files_after no_files (trace (run_traffic E_traffic)) =
             no_files(hostPatternFilePath_of E_traffic \<mapsto> js_trim v))"
proof -
  have a: "writes (trace (run_detached E_traffic)) \<noteq> []"
    by (simp add: eval_simps E_traffic_def)
  have b: "writes (trace (run_traffic E_traffic)) \<noteq> []"
    by (simp add: eval_simps E_traffic_def)
  from a b pattern_file_content[of E_traffic no_files] show ?thesis
    by blast
qed

text \<open>
  Claim C4 as stated fails on a pattern content that ends with a line feed: the staged file
  lacks the line feed.
\<close>

theorem pattern_file_content_counterexample:
  "inputs E_traffic ''patterns_yaml'' = Some (''a: 1'' @ [CHR 0x0A])
   \<and> files_after no_files (trace (run_detached E_traffic)) ''/w/roc-config-action/pattern.yaml''
       = Some ''a: 1''
   \<and> files_after no_files (trace (run_traffic E_traffic)) ''/w/roc-config-action/pattern.yaml''
       = Some ''a: 1''"
  by (simp add: eval_simps E_traffic_def no_files_def)

section \<open>The container that the calls address\<close>

lemma emits_checkSslLibraries [emits_intros]:
  assumes "\<And>msg. P (Info msg)" "\<And>msg. P (Warning msg)"
  shows "emits P (checkSslLibraries E sslLibPath sslLibVersion)"
  unfolding checkSslLibraries_def
  by (intro emits_intros) (simp_all add: assms)

lemma emits_monitorContainer [emits_intros]:
  assumes "\<And>out. P (Exec ''docker'' (inspect_args containerId) out)"
    "\<And>out. P (Exec ''docker'' [''logs'', containerId] out)"
    "\<And>msg. P (Info msg)" "\<And>msg. P (Warning msg)" "\<And>ms. P (Sleep ms)"
  shows "emits P (monitorContainer E containerId)"
  unfolding monitorContainer_def
  by (intro emits_intros) (simp_all add: assms)

lemma emits_getOutputFiles [emits_intros]:
  assumes "\<And>msg. P (Warning msg)"
  shows "emits P (getOutputFiles E outputDir)"
  unfolding getOutputFiles_def
  by (intro emits_intros) (simp_all add: assms)

lemma emits_getContainerLogs [emits_intros]:
  assumes "\<And>out. P (Exec ''docker'' [''logs'', containerId] out)" "\<And>msg. P (Warning msg)"
  shows "emits P (getContainerLogs E containerId)"
  unfolding getContainerLogs_def
  by (intro emits_intros) (simp_all add: assms)

lemma emits_cleanupContainer [emits_intros]:
  assumes "\<And>out. P (Exec ''docker'' [''stop'', ''roc-test''] out)"
    "\<And>out. P (Exec ''docker'' [''rm'', ''roc-test''] out)"
    "\<And>msg. P (Info msg)" "\<And>msg. P (Warning msg)"
  shows "emits P (cleanupContainer E)"
  unfolding cleanupContainer_def
  by (intro emits_intros) (simp_all add: assms)

lemma keyed_simps [simp]:
  "keyed name (Exec tool args out) \<longleftrightarrow> call_key args = Some name"
  "keyed name (Info msg)" "keyed name (Warning msg)" "keyed name (ErrorLog msg)"
  "keyed name (SetFailed msg)" "keyed name (SetOutput k v)" "keyed name (ConsoleLog msg)"
  "keyed name (Sleep ms)" "keyed name (EnsureDir p)" "keyed name (WriteFile p c)"
  by (simp_all add: keyed_def)

lemma keyed_by_id_simps [simp]:
  "keyed_by_id i (Exec tool args out) \<longleftrightarrow>
     call_key args = Some (if take 1 args = [''inspect''] \<or> take 1 args = [''logs'']
                           then i else ''roc-test'')"
  "keyed_by_id i (Info msg)" "keyed_by_id i (Warning msg)" "keyed_by_id i (ErrorLog msg)"
  "keyed_by_id i (SetFailed msg)" "keyed_by_id i (SetOutput k v)" "keyed_by_id i (ConsoleLog msg)"
  "keyed_by_id i (Sleep ms)" "keyed_by_id i (EnsureDir p)" "keyed_by_id i (WriteFile p c)"
  by (simp_all add: keyed_by_id_def)

lemma no_ps_simps [simp]:
  "no_ps (Exec tool args out) \<longleftrightarrow> take 1 args \<noteq> [''ps'']"
  "no_ps (Info msg)" "no_ps (Warning msg)" "no_ps (ErrorLog msg)"
  "no_ps (SetFailed msg)" "no_ps (SetOutput k v)" "no_ps (ConsoleLog msg)"
  "no_ps (Sleep ms)" "no_ps (EnsureDir p)" "no_ps (WriteFile p c)"
  by (simp_all add: no_ps_def)

lemma js_or_nonempty [simp]: "b \<noteq> [] \<Longrightarrow> js_or a b \<noteq> []"
  by (simp add: js_or_def)

lemma emits_keyed_detached: "emits (keyed (containerName_of E)) (run_detached_body E)"
  unfolding run_detached_body_def
  by (intro emits_intros)
     (simp_all add: call_key_def dockerRunCmd_detached_def containerName_of_def)

lemma emits_keyed_traffic: "emits (keyed (containerName_of E)) (run_traffic_body E)"
  unfolding run_traffic_body_def
  by (intro emits_intros)
     (simp_all add: call_key_def dockerRunCmd_traffic_def containerName_of_def)

lemma container_id_of_append:
  "\<forall>e \<in> set xs. no_ps e \<Longrightarrow> container_id_of (xs @ ys) = container_id_of ys"
  by (induction xs rule: container_id_of.induct) auto

lemma container_id_of_append2:
  "\<forall>e \<in> set ys. no_ps e \<Longrightarrow> container_id_of (xs @ ys) = container_id_of xs"
proof (induction xs rule: container_id_of.induct)
  case 1
  from container_id_of_append[OF 1, of "[]"] show ?case by simp
qed auto

lemma idform_quiet:
  assumes "emits (\<lambda>e. no_ps e \<and> (\<forall>i. keyed_by_id i e)) m"
  shows "idform m"
  using assms by (auto simp add: idform_def emits_def)

lemma idform_seq:
  assumes q: "emits (\<lambda>e. no_ps e \<and> (\<forall>i. keyed_by_id i e)) m"
    and f: "\<And>x. returns m x \<Longrightarrow> idform (f x)"
  shows "idform (seq m f)"
  unfolding idform_def
proof (intro allI ballI)
  fix n e assume e: "e \<in> set (snd (seq m f n))"
  from q have nq: "\<forall>e \<in> set (snd (m n)). no_ps e \<and> (\<forall>i. keyed_by_id i e)"
    by (simp add: emits_def)
  show "keyed_by_id (container_id_of (snd (seq m f n))) e"
  proof (cases "fst (m n)")
    case (Inl err)
    with e nq show ?thesis by (simp add: seq_Inl)
  next
    case (Inr x)
    then have "returns m x" by (auto simp add: returns_def)
    from f[OF this] have "\<forall>e \<in> set (snd (f x (n + calls (snd (m n))))).
        keyed_by_id (container_id_of (snd (f x (n + calls (snd (m n)))))) e"
      by (simp add: idform_def)
    with e nq Inr show ?thesis
      by (auto simp add: seq_Inr container_id_of_append)
  qed
qed

lemma idform_Let: "idform (f v) \<Longrightarrow> idform (Let v f)"
  by simp

lemma idform_if: "(c \<Longrightarrow> idform a) \<Longrightarrow> (\<not> c \<Longrightarrow> idform b) \<Longrightarrow> idform (if c then a else b)"
  by simp

lemma idform_case_prod:
  "(\<And>a b. x = (a, b) \<Longrightarrow> idform (f a b)) \<Longrightarrow> idform (case_prod f x)"
  by (cases x) simp

lemma idform_ps:
  assumes "\<And>code chunks. emits (\<lambda>e. no_ps e \<and> keyed_by_id (js_trim (concat (stdout_of chunks))) e)
              (f (code, chunks))"
  shows "idform (seq (exec E ''docker'' [''ps'', ''-q'', ''--filter'', ''name=roc-test''] False) f)"
  unfolding idform_def
proof (intro allI ballI)
  fix n e
  let ?ps = "[''ps'', ''-q'', ''--filter'', ''name=roc-test'']"
  let ?m = "exec E ''docker'' ?ps False"
  assume e: "e \<in> set (snd (seq ?m f n))"
  have k: "call_key ?ps = Some ''roc-test''"
    by (simp add: call_key_def)
  have ev: "snd (?m n) = [Exec ''docker'' ?ps (runtime E n ''docker'' ?ps)]"
    by (simp add: exec_def Let_def)
  show "keyed_by_id (container_id_of (snd (seq ?m f n))) e"
  proof (cases "fst (?m n)")
    case (Inl err)
    with e k show ?thesis by (simp add: seq_Inl ev)
  next
    case (Inr x)
    obtain code chunks where x: "x = (code, chunks)" by (cases x)
    with Inr have out: "runtime E n ''docker'' ?ps = Exit code chunks"
      by (auto simp add: exec_def Let_def split: proc_outcome.splits if_splits)
    let ?ys = "snd (f (code, chunks) (n + calls (snd (?m n))))"
    from assms[of chunks code] have ys: "\<forall>e \<in> set ?ys. no_ps e \<and>
        keyed_by_id (js_trim (concat (stdout_of chunks))) e"
      by (simp add: emits_def)
    have s: "snd (seq ?m f n) = Exec ''docker'' ?ps (Exit code chunks) # ?ys"
      using Inr x out by (simp add: seq_Inr ev)
    from e ys k show ?thesis
      unfolding s by auto
  qed
qed

lemma idform_monitored_body: "idform (run_monitored_body E)"
  unfolding run_monitored_body_def
  apply ((rule idform_Let | rule idform_case_prod | rule idform_if
          | (rule idform_seq, (intro emits_intros; simp add: call_key_def dockerArgs_def; fail))
          | (rule idform_quiet, (intro emits_intros; simp; fail)))+)
  apply (rule idform_ps)
  apply (intro emits_intros)
  apply (simp_all add: call_key_def inspect_args_def)
  done


lemma exec_calls_keyed:
  "(\<forall>args \<in> set (exec_calls evs). K args) \<longleftrightarrow> (\<forall>e \<in> set evs. \<forall>args \<in> set (exec_calls [e]). K args)"
  by (induction evs rule: exec_calls.induct) auto

lemma monitored_trace:
  "trace (run_monitored E) =
     snd (run_monitored_body E 0) @
     (case fst (run_monitored_body E 0) of
        Inl e \<Rightarrow> [SetFailed (message e), ErrorLog (stack_of e)] | Inr u \<Rightarrow> []) @
     cleanup_trace
       (runtime E (calls (snd (run_monitored_body E 0))) ''docker'' [''stop'', ''roc-test''])
       (runtime E (Suc (calls (snd (run_monitored_body E 0)))) ''docker'' [''rm'', ''roc-test''])"
  by (cases "fst (run_monitored_body E 0)")
     (simp_all add: trace_def run_monitored_def snd_try_finally guarded_trace cleanupContainer_eq)

text \<open>
  Claim C7, as amended. In the two actions that read the input \<^verbatim>\<open>container_name\<close> (default
  \<^verbatim>\<open>roc-action-container\<close>), every external call of a run addresses the resulting name: the
  launch names the container so, and the later \<^verbatim>\<open>exec\<close> and \<^verbatim>\<open>logs\<close> calls take it as their
  container. The monitoring action reads no container name: its launch, \<^verbatim>\<open>ps\<close>, \<^verbatim>\<open>stop\<close> and
  \<^verbatim>\<open>rm\<close> calls address the fixed name \<^verbatim>\<open>roc-test\<close>, and its \<^verbatim>\<open>inspect\<close> and \<^verbatim>\<open>logs\<close> calls
  address the container id that the run read from the output of \<^verbatim>\<open>ps\<close>.
\<close>

theorem container_key:
  "(\<forall>args \<in> set (exec_calls (trace (run_detached E))). call_key args = Some (containerName_of E))
   \<and> (\<forall>args \<in> set (exec_calls (trace (run_traffic E))). call_key args = Some (containerName_of E))
   \<and> (\<forall>args \<in> set (exec_calls (trace (run_monitored E))).
         call_key args =
           Some (if take 1 args = [''inspect''] \<or> take 1 args = [''logs'']
                 then container_id_of (trace (run_monitored E)) else ''roc-test''))"
proof (intro conjI)
  have "\<forall>e \<in> set (trace (run_detached E)). keyed (containerName_of E) e"
    unfolding detached_trace using emits_keyed_detached[of E]
    by (auto simp add: emits_def split: sum.splits)
  then show "\<forall>args \<in> set (exec_calls (trace (run_detached E))).
      call_key args = Some (containerName_of E)"
    unfolding exec_calls_keyed[where evs = "trace (run_detached E)"] keyed_def .
next
  have "\<forall>e \<in> set (trace (run_traffic E)). keyed (containerName_of E) e"
    unfolding traffic_trace using emits_keyed_traffic[of E]
    by (auto simp add: emits_def split: sum.splits)
  then show "\<forall>args \<in> set (exec_calls (trace (run_traffic E))).
      call_key args = Some (containerName_of E)"
    unfolding exec_calls_keyed[where evs = "trace (run_traffic E)"] keyed_def .
next
  define B where "B = snd (run_monitored_body E 0)"
  define R where "R = (case fst (run_monitored_body E 0) of
        Inl e \<Rightarrow> [SetFailed (message e), ErrorLog (stack_of e)] | Inr u \<Rightarrow> []) @
     cleanup_trace
       (runtime E (calls (snd (run_monitored_body E 0))) ''docker'' [''stop'', ''roc-test''])
       (runtime E (Suc (calls (snd (run_monitored_body E 0)))) ''docker'' [''rm'', ''roc-test''])"
  have tr: "trace (run_monitored E) = B @ R"
    unfolding B_def R_def by (simp add: monitored_trace)
  have r: "\<forall>e \<in> set R. no_ps e \<and> (\<forall>i. keyed_by_id i e)"
    unfolding R_def
    by (auto simp add: cleanup_trace_def call_key_def split: sum.splits proc_outcome.splits)
  then have c: "container_id_of (B @ R) = container_id_of B"
    by (simp add: container_id_of_append2)
  have b: "\<forall>e \<in> set B. keyed_by_id (container_id_of B) e"
    using idform_monitored_body[of E] unfolding idform_def B_def by blast
  have "\<forall>e \<in> set (trace (run_monitored E)).
          keyed_by_id (container_id_of (trace (run_monitored E))) e"
    unfolding tr c using b r by auto
  then show "\<forall>args \<in> set (exec_calls (trace (run_monitored E))).
         call_key args =
           Some (if take 1 args = [''inspect''] \<or> take 1 args = [''logs'']
                 then container_id_of (trace (run_monitored E)) else ''roc-test'')"
    unfolding exec_calls_keyed[where evs = "trace (run_monitored E)"] keyed_by_id_def .
qed

theorem container_key_witness:
  "exec_calls (trace (run_detached E_traffic)) \<noteq> []
   \<and> call_key (hd (exec_calls (trace (run_detached E_traffic)))) = Some ''roc-action-container''
   \<and> [''logs'', ''roc-action-container''] \<in> set (exec_calls (trace (run_traffic E_traffic)))
   \<and> call_key [''logs'', ''roc-action-container''] = Some (containerName_of E_traffic)
   \<and> [''logs'', ''abc123''] \<in> set (exec_calls (trace (run_monitored E_p)))
   \<and> call_key [''logs'', ''abc123''] = Some (container_id_of (trace (run_monitored E_p)))"
proof -
  have a: "exec_calls (trace (run_detached E_traffic)) \<noteq> []"
    by (simp add: eval_simps E_traffic_def)
  have n: "containerName_of E_traffic = ''roc-action-container''"
    by (simp add: containerName_of_def input_value_def E_traffic_def host_def js_or_def
          js_trim_def)
  have b: "[''logs'', ''roc-action-container''] \<in> set (exec_calls (trace (run_traffic E_traffic)))"
    by (simp add: eval_simps E_traffic_def)
  have c: "[''logs'', ''abc123''] \<in> set (exec_calls (trace (run_monitored E_p)))"
    by (simp add: eval_simps E_p_def)
  from a have "hd (exec_calls (trace (run_detached E_traffic)))
                 \<in> set (exec_calls (trace (run_detached E_traffic)))"
    by simp
  with container_key[of E_traffic]
  have 1: "call_key (hd (exec_calls (trace (run_detached E_traffic)))) =
             Some ''roc-action-container''"
    unfolding n by blast
  from b container_key[of E_traffic]
  have 2: "call_key [''logs'', ''roc-action-container''] = Some (containerName_of E_traffic)"
    by blast
  from c container_key[of E_p]
  have "call_key [''logs'', ''abc123''] =
          Some (if take 1 [''logs'', ''abc123''] = [''inspect'']
                   \<or> take 1 [''logs'', ''abc123''] = [''logs'']
                then container_id_of (trace (run_monitored E_p)) else ''roc-test'')"
    by blast
  then have 3: "call_key [''logs'', ''abc123''] = Some (container_id_of (trace (run_monitored E_p)))"
    by simp
  from a b c 1 2 3 show ?thesis
    by blast
qed

text \<open>
  Claim C7 as stated fails on the monitoring action: a supplied container name is not read,
  the container is named \<^verbatim>\<open>roc-test\<close>, and the status and logs calls address the container
  id printed by \<^verbatim>\<open>ps\<close>.
\<close>

theorem container_key_counterexample:
  "inputs E_named ''container_name'' = Some ''mine''
   \<and> take 4 (hd (exec_calls (trace (run_monitored E_named)))) =
       [''run'', ''-d'', ''--name'', ''roc-test'']
   \<and> tl (exec_calls (trace (run_monitored E_named))) =
       [[''ps'', ''-q'', ''--filter'', ''name=roc-test''],
        [''inspect'', ''--format'', ''{{.State.Status}}'', ''abc123''],
        [''logs'', ''abc123''], [''logs'', ''abc123''],
        [''stop'', ''roc-test''], [''rm'', ''roc-test'']]"
  by (simp add: eval_simps E_named_def)

section \<open>A failed call stops the main flow\<close>

text \<open>\<^verbatim>\<open>exec.exec\<close> rejects for a call that failed, so the steps after the call are skipped:
  when the call is the first step of an action and it failed, the action stops at it.\<close>

lemma failed_launch_Exec:
  "failed_launch (Exec tool args out) \<longleftrightarrow>
     take 1 args = [''run''] \<and> (\<exists>code chunks. out = Exit code chunks \<and> code \<noteq> 0)"
  by (cases out) auto

lemma failed_launch_failed: "failed_launch e \<Longrightarrow> failed_call e"
  by (induction e rule: failed_launch.induct) auto

lemma exec_failed:
  "failed_outcome (runtime E n tool args) \<Longrightarrow>
   exec E tool args False n =
     (Inl (JsError (call_error (Exec tool args (runtime E n tool args)))),
      [Exec tool args (runtime E n tool args)])"
  by (cases "runtime E n tool args") (auto simp add: exec_def Let_def)

lemma exec_ok:
  "\<not> failed_outcome (runtime E n tool args) \<Longrightarrow>
   \<exists>x. exec E tool args False n = (Inr x, [Exec tool args (runtime E n tool args)])"
  by (cases "runtime E n tool args") (auto simp add: exec_def Let_def)

lemma when_seen_exec:
  assumes q: "\<And>e. Q e \<Longrightarrow> failed_call e"
    and f: "\<And>x. when_seen Q halts (f x)"
  shows "when_seen Q halts (seq (exec E tool args False) f)"
  unfolding when_seen_def
proof (intro allI impI, elim conjE)
  fix n pre e post
  let ?out = "runtime E n tool args"
  let ?m = "exec E tool args False"
  assume s: "snd (seq ?m f n) = pre @ e # post" and e: "Q e"
  show "halts e (fst (seq ?m f n)) post"
  proof (cases "failed_outcome ?out")
    case True
    from exec_failed[OF True] have "seq ?m f n =
        (Inl (JsError (call_error (Exec tool args ?out))), [Exec tool args ?out])"
      by (simp add: seq_Inl)
    with s show ?thesis
      by (auto simp add: halts_def Cons_eq_append_conv)
  next
    case False
    from exec_ok[OF False] obtain x where x: "?m n = (Inr x, [Exec tool args ?out])" ..
    let ?ys = "snd (f x (Suc n))"
    from x have sq: "seq ?m f n = (fst (f x (Suc n)), Exec tool args ?out # ?ys)"
      by (simp add: seq_Inr)
    from False q[of "Exec tool args ?out"] have nq: "\<not> Q (Exec tool args ?out)"
      by auto
    from s sq have "Exec tool args ?out # ?ys = pre @ e # post" by simp
    with nq e obtain pre' where "?ys = pre' @ e # post"
      by (cases pre) auto
    with f[of x] e have "halts e (fst (f x (Suc n))) post"
      by (auto simp add: when_seen_def)
    with sq show ?thesis by simp
  qed
qed

lemma detached_halts_launch: "when_seen failed_launch halts (run_detached_body E)"
  unfolding run_detached_body_def
  by ((rule when_seen_Let | rule when_seen_case_prod | rule when_seen_if
          | (rule when_seen_seq, (intro emits_intros; simp add: failed_launch_Exec; fail))
          | (rule when_seen_exec, erule failed_launch_failed)
          | (rule when_seen_quiet, (intro emits_intros; simp add: failed_launch_Exec; fail)))+)


lemma traffic_halts_launch: "when_seen failed_launch halts (run_traffic_body E)"
  unfolding run_traffic_body_def
  by ((rule when_seen_Let | rule when_seen_case_prod | rule when_seen_if
          | (rule when_seen_seq, (intro emits_intros; simp add: failed_launch_Exec; fail))
          | (rule when_seen_exec, erule failed_launch_failed)
          | (rule when_seen_quiet, (intro emits_intros; simp add: failed_launch_Exec; fail)))+)

lemma monitored_halts_launch: "when_seen failed_launch halts (run_monitored_body E)"
  unfolding run_monitored_body_def
  by ((rule when_seen_Let | rule when_seen_case_prod | rule when_seen_if
          | (rule when_seen_seq, (intro emits_intros;
               simp add: failed_launch_Exec inspect_args_def; fail))
          | (rule when_seen_exec, erule failed_launch_failed)
          | (rule when_seen_quiet, (intro emits_intros;
               simp add: failed_launch_Exec inspect_args_def; fail)))+)

lemma detached_halts_call: "when_seen failed_call halts (run_detached_body E)"
  unfolding run_detached_body_def
  by ((rule when_seen_Let | rule when_seen_case_prod | rule when_seen_if
          | (rule when_seen_seq, (intro emits_intros; simp; fail))
          | (rule when_seen_exec, assumption)
          | (rule when_seen_quiet, (intro emits_intros; simp; fail)))+)

lemma traffic_halts_call: "when_seen failed_call halts (run_traffic_body E)"
  unfolding run_traffic_body_def
  by ((rule when_seen_Let | rule when_seen_case_prod | rule when_seen_if
          | (rule when_seen_seq, (intro emits_intros; simp; fail))
          | (rule when_seen_exec, assumption)
          | (rule when_seen_quiet, (intro emits_intros; simp; fail)))+)

lemma split_in_first:
  assumes "xs @ ys = pre @ e # post" "\<forall>y \<in> set ys. \<not> Q y" "Q e"
  obtains post' where "xs = pre @ e # post'" "post = post' @ ys"
proof -
  from assms(1) obtain us where
    "(xs @ us = pre \<and> ys = us @ e # post) \<or> (xs = pre @ us \<and> us @ ys = e # post)"
    by (auto simp add: append_eq_append_conv2)
  then show thesis
  proof
    assume "xs @ us = pre \<and> ys = us @ e # post"
    then have "e \<in> set ys" by simp
    with assms(2,3) show thesis by blast
  next
    assume a: "xs = pre @ us \<and> us @ ys = e # post"
    show thesis
    proof (cases us)
      case Nil
      with a have "e \<in> set ys" by simp
      with assms(2,3) show thesis by blast
    next
      case (Cons u us')
      with a that show thesis by simp
    qed
  qed
qed

lemma halted_report:
  assumes w: "when_seen Q halts body"
    and tr: "tr = snd (body 0) @ (case fst (body 0) of Inl err \<Rightarrow> H err | Inr u \<Rightarrow> []) @ C"
    and h: "\<And>err. \<forall>y \<in> set (H err @ C). \<not> Q y"
    and s: "tr = pre @ e # post" and e: "Q e"
  shows "post = H (JsError (call_error e)) @ C \<and> snd (body 0) = pre @ [e]"
proof -
  let ?R = "(case fst (body 0) of Inl err \<Rightarrow> H err | Inr u \<Rightarrow> []) @ C"
  have "\<forall>y \<in> set ?R. \<not> Q y"
    using h by (auto split: sum.splits)
  with s tr e obtain post' where p: "snd (body 0) = pre @ e # post'" "post = post' @ ?R"
    using split_in_first[of "snd (body 0)" ?R pre e post Q] by auto
  with w e have "post' = []" "fst (body 0) = Inl (JsError (call_error e))"
    unfolding when_seen_def halts_def by blast+
  with p show ?thesis by simp
qed

text \<open>The first external call of each action is refused in the environment
  \<^const>\<open>E_refused\<close>, and cannot be started in \<^const>\<open>E_down\<close>.\<close>

lemma from_first_call_split:
  "from_first_call evs \<noteq> [] \<Longrightarrow>
   evs = takeWhile (\<lambda>e. \<not> is_Exec e) evs @ hd (from_first_call evs) # tl (from_first_call evs)"
  by (simp add: from_first_call_def)

lemma refused_detached:
  "from_first_call (trace (run_detached E_refused)) \<noteq> []
   \<and> failed_launch (hd (from_first_call (trace (run_detached E_refused))))"
  by (simp add: eval_simps E_refused_def docker_refused_def from_first_call_def)

lemma refused_traffic:
  "from_first_call (trace (run_traffic E_refused)) \<noteq> []
   \<and> failed_launch (hd (from_first_call (trace (run_traffic E_refused))))"
  by (simp add: eval_simps E_refused_def docker_refused_def from_first_call_def)

lemma refused_monitored:
  "from_first_call (trace (run_monitored E_refused)) \<noteq> []
   \<and> failed_launch (hd (from_first_call (trace (run_monitored E_refused))))"
  by (simp add: eval_simps E_refused_def docker_refused_def from_first_call_def)

lemma down_monitored:
  "from_first_call (trace (run_monitored E_down)) \<noteq> []
   \<and> failed_call (hd (from_first_call (trace (run_monitored E_down))))"
  by (simp add: eval_simps E_down_def docker_missing_def from_first_call_def)

text \<open>Claim C8. If the launch call exits with a nonzero status, the run is aborted and the
  failure is reported: in the actions of \<^verbatim>\<open>src/index.js\<close> line 7 and of
  \<^verbatim>\<open>src/unnamed/part_000\<close> the only event after the failed launch is the report of the
  failure, whose message is the error of the call; in the monitoring action
  (\<^verbatim>\<open>src/index.js\<close> line 130) the failed launch is followed by the report, the log of the
  error stack and the cleanup (one \<^verbatim>\<open>stop\<close> and at most one \<^verbatim>\<open>rm\<close>), and by nothing
  else. So there is no second launch and no later step of the main flow.\<close>

theorem launch_failure_aborts:
  "(trace (run_detached E) = pre @ e # post \<and> failed_launch e
      \<longrightarrow> post = [SetFailed (call_error e)])
   \<and> (trace (run_traffic E) = pre @ e # post \<and> failed_launch e
      \<longrightarrow> post = [SetFailed (call_error e)])
   \<and> (trace (run_monitored E) = pre @ e # post \<and> failed_launch e
      \<longrightarrow> (\<exists>stopped removed.
            post = SetFailed (call_error e) # ErrorLog (''Error: '' @ call_error e)
                   # cleanup_trace stopped removed))"
proof (intro conjI impI; elim conjE)
  assume "trace (run_detached E) = pre @ e # post" "failed_launch e"
  from halted_report[OF detached_halts_launch, of _ E "\<lambda>err. [SetFailed (message err)]" "[]",
      OF _ _ this] detached_trace[of E]
  show "post = [SetFailed (call_error e)]"
    by simp
next
  assume "trace (run_traffic E) = pre @ e # post" "failed_launch e"
  from halted_report[OF traffic_halts_launch, of _ E "\<lambda>err. [SetFailed (message err)]" "[]",
      OF _ _ this] traffic_trace[of E]
  show "post = [SetFailed (call_error e)]"
    by simp
next
  assume a: "trace (run_monitored E) = pre @ e # post" "failed_launch e"
  let ?C = "cleanup_trace
       (runtime E (calls (snd (run_monitored_body E 0))) ''docker'' [''stop'', ''roc-test''])
       (runtime E (Suc (calls (snd (run_monitored_body E 0)))) ''docker'' [''rm'', ''roc-test''])"
  have c: "\<forall>y \<in> set ([SetFailed (message err), ErrorLog (stack_of err)] @ ?C). \<not> failed_launch y" for err
    by (auto simp add: cleanup_trace_def failed_launch_Exec split: proc_outcome.splits)
  from halted_report[OF monitored_halts_launch, of _ E
      "\<lambda>err. [SetFailed (message err), ErrorLog (stack_of err)]" ?C, OF _ c a] monitored_trace[of E]
  show "\<exists>stopped removed.
            post = SetFailed (call_error e) # ErrorLog (''Error: '' @ call_error e)
                   # cleanup_trace stopped removed"
    by (auto simp add: stack_of_def)
qed

theorem launch_failure_aborts_witness:
  "failed_launch (hd (from_first_call (trace (run_detached E_refused))))
   \<and> tl (from_first_call (trace (run_detached E_refused)))
       = [SetFailed (call_error (hd (from_first_call (trace (run_detached E_refused)))))]
   \<and> failed_launch (hd (from_first_call (trace (run_traffic E_refused))))
   \<and> tl (from_first_call (trace (run_traffic E_refused)))
       = [SetFailed (call_error (hd (from_first_call (trace (run_traffic E_refused)))))]
   \<and> failed_launch (hd (from_first_call (trace (run_monitored E_refused))))
   \<and> (\<exists>stopped removed. tl (from_first_call (trace (run_monitored E_refused)))
       = SetFailed (call_error (hd (from_first_call (trace (run_monitored E_refused)))))
         # ErrorLog (''Error: '' @ call_error (hd (from_first_call (trace (run_monitored E_refused)))))
         # cleanup_trace stopped removed)"
proof -
  note a = refused_detached[THEN conjunct1, THEN from_first_call_split]
  note b = refused_traffic[THEN conjunct1, THEN from_first_call_split]
  note c = refused_monitored[THEN conjunct1, THEN from_first_call_split]
  from launch_failure_aborts[of E_refused
      "takeWhile (\<lambda>e. \<not> is_Exec e) (trace (run_detached E_refused))"
      "hd (from_first_call (trace (run_detached E_refused)))"
      "tl (from_first_call (trace (run_detached E_refused)))"] a refused_detached
  have 1: "tl (from_first_call (trace (run_detached E_refused)))
       = [SetFailed (call_error (hd (from_first_call (trace (run_detached E_refused)))))]"
    by blast
  from launch_failure_aborts[of E_refused
      "takeWhile (\<lambda>e. \<not> is_Exec e) (trace (run_traffic E_refused))"
      "hd (from_first_call (trace (run_traffic E_refused)))"
      "tl (from_first_call (trace (run_traffic E_refused)))"] b refused_traffic
  have 2: "tl (from_first_call (trace (run_traffic E_refused)))
       = [SetFailed (call_error (hd (from_first_call (trace (run_traffic E_refused)))))]"
    by blast
  from launch_failure_aborts[of E_refused
      "takeWhile (\<lambda>e. \<not> is_Exec e) (trace (run_monitored E_refused))"
      "hd (from_first_call (trace (run_monitored E_refused)))"
      "tl (from_first_call (trace (run_monitored E_refused)))"] c refused_monitored
  have 3: "\<exists>stopped removed. tl (from_first_call (trace (run_monitored E_refused)))
       = SetFailed (call_error (hd (from_first_call (trace (run_monitored E_refused)))))
         # ErrorLog (''Error: '' @ call_error (hd (from_first_call (trace (run_monitored E_refused)))))
         # cleanup_trace stopped removed"
    by blast
  from 1 2 3 refused_detached refused_traffic refused_monitored show ?thesis
    by blast
qed

section \<open>No call is retried\<close>

text \<open>The detached and the traffic action stop at any failed call. In the monitoring action
  a failed call is caught at some places, but the calls that follow it belong to later
  stages: the ranks of the commands only climb after a failure.\<close>

lemma failed_call_is_Exec: "failed_call e \<Longrightarrow> is_Exec e"
  by (cases e) auto

lemma same_call_rank: "same_call e e' \<Longrightarrow> is_Exec e' \<and> rank e = rank e'"
  by (induction e e' rule: same_call.induct) (auto simp add: call_rank_def)

lemma climbs_no_retry: "climbs evs \<Longrightarrow> no_retry evs"
proof (induction evs)
  case Nil
  then show ?case by simp
next
  case (Cons e evs)
  have "\<not> same_call e e'" if "failed_call e" "e' \<in> set evs" for e'
  proof
    assume "same_call e e'"
    then have "is_Exec e'" "rank e = rank e'"
      using same_call_rank by blast+
    with Cons.prems that show False by auto
  qed
  with Cons show ?case by simp
qed

lemma climbs_append:
  "climbs (xs @ ys) \<longleftrightarrow>
     climbs xs \<and> climbs ys
     \<and> (\<forall>e \<in> set xs. failed_call e \<longrightarrow> (\<forall>e' \<in> set ys. is_Exec e' \<longrightarrow> rank e < rank e'))"
  by (induction xs) auto

lemma climbs_quiet: "\<forall>e \<in> set evs. \<not> is_Exec e \<Longrightarrow> climbs evs"
  by (induction evs) (auto dest: failed_call_is_Exec)

lemma staged_quiet: "emits (\<lambda>e. \<not> is_Exec e) m \<Longrightarrow> staged lo hi m"
  unfolding staged_def emits_def
  by (auto intro: climbs_quiet dest: failed_call_is_Exec)

lemma staged_weaken: "staged a b m \<Longrightarrow> lo \<le> a \<Longrightarrow> b \<le> hi \<Longrightarrow> staged lo hi m"
  unfolding staged_def by (fastforce)

lemma staged_seq:
  assumes m: "staged lo b m" and f: "\<And>x. returns m x \<Longrightarrow> staged b hi (f x)"
    and le: "lo \<le> b" "b \<le> hi"
  shows "staged lo hi (seq m f)"
  unfolding staged_def
proof (intro allI)
  fix n
  let ?xs = "snd (m n)"
  from m have xs: "climbs ?xs" "\<forall>e \<in> set ?xs. is_Exec e \<longrightarrow> lo \<le> rank e"
      "\<forall>e \<in> set ?xs. failed_call e \<longrightarrow> rank e \<le> b \<and> (\<forall>x. fst (m n) = Inr x \<longrightarrow> rank e < b)"
    unfolding staged_def by blast+
  show "climbs (snd (seq m f n))
        \<and> (\<forall>e \<in> set (snd (seq m f n)). is_Exec e \<longrightarrow> lo \<le> rank e)
        \<and> (\<forall>e \<in> set (snd (seq m f n)). failed_call e \<longrightarrow>
              rank e \<le> hi \<and> (\<forall>x. fst (seq m f n) = Inr x \<longrightarrow> rank e < hi))"
  proof (cases "fst (m n)")
    case (Inl err)
    with xs le show ?thesis by (auto simp add: seq_Inl)
  next
    case (Inr x)
    let ?k = "n + calls ?xs"
    let ?ys = "snd (f x ?k)"
    from Inr have "returns m x" by (auto simp add: returns_def)
    from f[OF this] have ys: "climbs ?ys" "\<forall>e \<in> set ?ys. is_Exec e \<longrightarrow> b \<le> rank e"
      "\<forall>e \<in> set ?ys. failed_call e \<longrightarrow> rank e \<le> hi \<and> (\<forall>y. fst (f x ?k) = Inr y \<longrightarrow> rank e < hi)"
      unfolding staged_def by blast+
    from xs(3) Inr have fx: "\<forall>e \<in> set ?xs. failed_call e \<longrightarrow> rank e < b"
      by blast
    have 1: "climbs (?xs @ ?ys)"
      unfolding climbs_append using xs(1) ys(1) fx ys(2) by fastforce
    have 2: "\<forall>e \<in> set (?xs @ ?ys). is_Exec e \<longrightarrow> lo \<le> rank e"
      using xs(2) ys(2) le by fastforce
    have 3: "\<forall>e \<in> set (?xs @ ?ys). failed_call e \<longrightarrow>
              rank e \<le> hi \<and> (\<forall>y. fst (f x ?k) = Inr y \<longrightarrow> rank e < hi)"
      using fx ys(3) le by fastforce
    from 1 2 3 Inr show ?thesis by (simp add: seq_Inr)
  qed
qed

lemma staged_seq_quiet:
  assumes "emits (\<lambda>e. \<not> is_Exec e) m" "\<And>x. returns m x \<Longrightarrow> staged lo hi (f x)"
  shows "staged lo hi (seq m f)"
proof -
  have m: "\<forall>n. \<forall>e \<in> set (snd (m n)). \<not> is_Exec e"
    using assms(1) by (simp add: emits_def)
  show ?thesis
    unfolding staged_def
  proof (intro allI)
    fix n
    show "climbs (snd (seq m f n))
        \<and> (\<forall>e \<in> set (snd (seq m f n)). is_Exec e \<longrightarrow> lo \<le> rank e)
        \<and> (\<forall>e \<in> set (snd (seq m f n)). failed_call e \<longrightarrow>
              rank e \<le> hi \<and> (\<forall>x. fst (seq m f n) = Inr x \<longrightarrow> rank e < hi))"
    proof (cases "fst (m n)")
      case (Inl err)
      with m show ?thesis
        by (auto simp add: seq_Inl intro: climbs_quiet dest: failed_call_is_Exec)
    next
      case (Inr x)
      then have "returns m x" by (auto simp add: returns_def)
      from assms(2)[OF this] have "climbs (snd (f x (n + calls (snd (m n)))))
        \<and> (\<forall>e \<in> set (snd (f x (n + calls (snd (m n))))). is_Exec e \<longrightarrow> lo \<le> rank e)
        \<and> (\<forall>e \<in> set (snd (f x (n + calls (snd (m n))))). failed_call e \<longrightarrow>
              rank e \<le> hi \<and> (\<forall>y. fst (f x (n + calls (snd (m n)))) = Inr y \<longrightarrow> rank e < hi))"
        unfolding staged_def by blast
      with m Inr show ?thesis
        by (auto simp add: seq_Inr climbs_append intro: climbs_quiet dest: failed_call_is_Exec)
    qed
  qed
qed

lemma staged_exec: "staged (call_rank args) (call_rank args) (exec E tool args False)"
  unfolding staged_def
proof (intro allI)
  fix n
  show "climbs (snd (exec E tool args False n))
        \<and> (\<forall>e \<in> set (snd (exec E tool args False n)). is_Exec e \<longrightarrow> call_rank args \<le> rank e)
        \<and> (\<forall>e \<in> set (snd (exec E tool args False n)). failed_call e \<longrightarrow>
              rank e \<le> call_rank args
              \<and> (\<forall>x. fst (exec E tool args False n) = Inr x \<longrightarrow> rank e < call_rank args))"
    by (cases "runtime E n tool args") (auto simp add: exec_def Let_def)
qed

lemma staged_exec_ignore:
  "staged (call_rank args) (Suc (call_rank args)) (exec E tool args True)"
  unfolding staged_def
  by (auto simp add: exec_def Let_def)

lemma staged_seq_exec:
  assumes "lo \<le> call_rank args" "call_rank args \<le> hi"
    "\<And>x. staged (call_rank args) hi (f x)"
  shows "staged lo hi (seq (exec E tool args False) f)"
  by (rule staged_seq[OF staged_weaken[OF staged_exec]]) (use assms in simp_all)

lemma staged_Let: "staged lo hi (f v) \<Longrightarrow> staged lo hi (Let v f)"
  by simp

lemma staged_if:
  "(c \<Longrightarrow> staged lo hi a) \<Longrightarrow> (\<not> c \<Longrightarrow> staged lo hi b) \<Longrightarrow> staged lo hi (if c then a else b)"
  by simp

lemma staged_case_prod:
  "(\<And>a b. x = (a, b) \<Longrightarrow> staged lo hi (f a b)) \<Longrightarrow> staged lo hi (case_prod f x)"
  by (cases x) simp

lemma staged_try_catch:
  assumes m: "staged lo hi m" and h: "\<And>e. emits (\<lambda>e. \<not> is_Exec e) (h e)"
  shows "staged lo (Suc hi) (try_catch m h)"
  unfolding staged_def
proof (intro allI)
  fix n
  from m have xs: "climbs (snd (m n))" "\<forall>e \<in> set (snd (m n)). is_Exec e \<longrightarrow> lo \<le> rank e"
      "\<forall>e \<in> set (snd (m n)). failed_call e \<longrightarrow> rank e \<le> hi"
    unfolding staged_def by blast+
  show "climbs (snd (try_catch m h n))
        \<and> (\<forall>e \<in> set (snd (try_catch m h n)). is_Exec e \<longrightarrow> lo \<le> rank e)
        \<and> (\<forall>e \<in> set (snd (try_catch m h n)). failed_call e \<longrightarrow>
              rank e \<le> Suc hi \<and> (\<forall>x. fst (try_catch m h n) = Inr x \<longrightarrow> rank e < Suc hi))"
  proof (cases "fst (m n)")
    case (Inl err)
    from h[of err] have q: "\<forall>e \<in> set (snd (h err (n + calls (snd (m n))))). \<not> is_Exec e"
      by (simp add: emits_def)
    with xs Inl show ?thesis
      by (auto simp add: try_catch_Inl climbs_append intro: climbs_quiet dest: failed_call_is_Exec)
  next
    case (Inr x)
    with xs show ?thesis
      by (auto simp add: try_catch_Inr)
  qed
qed

lemma staged_try_finally:
  assumes m: "staged lo b m" and f: "staged c hi fin" and le: "b < c" "lo \<le> c" "b \<le> hi"
  shows "staged lo hi (try_finally m fin)"
  unfolding staged_def
proof (intro allI)
  fix n
  let ?xs = "snd (m n)"
  let ?ys = "snd (fin (n + calls ?xs))"
  from m have xs: "climbs ?xs" "\<forall>e \<in> set ?xs. is_Exec e \<longrightarrow> lo \<le> rank e"
      "\<forall>e \<in> set ?xs. failed_call e \<longrightarrow> rank e \<le> b"
    unfolding staged_def by blast+
  from f have ys: "climbs ?ys" "\<forall>e \<in> set ?ys. is_Exec e \<longrightarrow> c \<le> rank e"
      "\<forall>e \<in> set ?ys. failed_call e \<longrightarrow> rank e \<le> hi
          \<and> (\<forall>x. fst (fin (n + calls ?xs)) = Inr x \<longrightarrow> rank e < hi)"
    unfolding staged_def by blast+
  from m have xr: "\<forall>e \<in> set ?xs. failed_call e \<longrightarrow> (\<forall>x. fst (m n) = Inr x \<longrightarrow> rank e < b)"
    unfolding staged_def by blast
  have 1: "climbs (?xs @ ?ys)"
    unfolding climbs_append using xs(1,3) ys(1,2) le by fastforce
  have 2: "\<forall>e \<in> set (?xs @ ?ys). is_Exec e \<longrightarrow> lo \<le> rank e"
    using xs(2) ys(2) le by fastforce
  have 3: "\<forall>e \<in> set (?xs @ ?ys). failed_call e \<longrightarrow> rank e \<le> hi"
    using xs(3) ys(3) le by fastforce
  have 4: "\<forall>e \<in> set (?xs @ ?ys). failed_call e \<longrightarrow> rank e < hi"
    if "fst (try_finally m fin n) = Inr x" for x
  proof -
    from that have "fst (m n) = Inr x \<and> (\<exists>u. fst (fin (n + calls ?xs)) = Inr u)"
      by (cases "m n"; cases "fin (n + calls ?xs)")
         (auto simp add: try_finally_def split: sum.splits)
    with xr ys(3) le show ?thesis by fastforce
  qed
  from 1 2 3 4 show "climbs (snd (try_finally m fin n))
        \<and> (\<forall>e \<in> set (snd (try_finally m fin n)). is_Exec e \<longrightarrow> lo \<le> rank e)
        \<and> (\<forall>e \<in> set (snd (try_finally m fin n)). failed_call e \<longrightarrow>
              rank e \<le> hi \<and> (\<forall>x. fst (try_finally m fin n) = Inr x \<longrightarrow> rank e < hi))"
    unfolding snd_try_finally by blast
qed


lemma staged_monitor_loop: "staged 4 5 (monitor_loop E containerId i)"
proof (induction E containerId i rule: monitor_loop.induct)
  case (1 E containerId i)
  show ?case
  proof (cases "i < 30")
    case False
    then show ?thesis
      by (subst monitor_loop.simps) (simp add: staged_quiet emits_ret)
  next
    case True
    have r: "call_rank (inspect_args containerId) = 4"
      by (simp add: call_rank_def inspect_args_def)
    show ?thesis
      unfolding staged_def
    proof (intro allI)
      fix n
      let ?out = "runtime E n ''docker'' (inspect_args containerId)"
      let ?e = "Exec ''docker'' (inspect_args containerId) ?out"
      obtain evs where it: "monitor_iteration E containerId n =
         (Inr (if terminal ?out \<or> status_of ?out = None then Break else Continue), ?e # evs)"
        and evs: "calls evs = 0" "exec_calls evs = []"
        using monitor_iteration_eq[of E containerId n] by blast
      from evs(2) have q: "\<forall>e \<in> set evs. \<not> is_Exec e"
        by (induction evs rule: exec_calls.induct) auto
      have fo: "failed_outcome ?out \<Longrightarrow> status_of ?out = None"
        by (cases ?out) (auto simp add: status_of_def)
      let ?L = "monitor_loop E containerId i n"
      show "climbs (snd ?L) \<and> (\<forall>e \<in> set (snd ?L). is_Exec e \<longrightarrow> 4 \<le> rank e)
          \<and> (\<forall>e \<in> set (snd ?L). failed_call e \<longrightarrow>
                rank e \<le> 5 \<and> (\<forall>x. fst ?L = Inr x \<longrightarrow> rank e < 5))"
      proof (cases "terminal ?out \<or> status_of ?out = None")
        case stop: True
        with it have f: "fst (monitor_iteration E containerId n) = Inr Break"
          and e: "snd (monitor_iteration E containerId n) = ?e # evs"
          by simp_all
        have "?L = (Inr (), ?e # evs)"
          using True by (simp add: monitor_loop.simps[of E containerId i] seq_Inr f e ret_def)
        with q r show ?thesis
          by (auto intro: climbs_quiet dest: failed_call_is_Exec)
      next
        case go: False
        with it have f: "fst (monitor_iteration E containerId n) = Inr Continue"
          and e: "snd (monitor_iteration E containerId n) = ?e # evs"
          by simp_all
        let ?rest = "monitor_loop E containerId (Suc i) (Suc n)"
        have eq: "?L = (fst ?rest, (?e # evs) @ snd ?rest)"
          using True evs by (simp add: monitor_loop.simps[of E containerId i] seq_Inr f e)
        from "1.IH"[OF True] have IH: "climbs (snd ?rest)"
          "\<forall>e \<in> set (snd ?rest). is_Exec e \<longrightarrow> 4 \<le> rank e"
          "\<forall>e \<in> set (snd ?rest). failed_call e \<longrightarrow>
                rank e \<le> 5 \<and> (\<forall>x. fst ?rest = Inr x \<longrightarrow> rank e < 5)"
          unfolding staged_def by blast+
        from go fo have nf: "\<not> failed_call ?e" by auto
        have c: "climbs ((?e # evs) @ snd ?rest)"
          unfolding climbs_append using nf q IH(1)
          by (auto intro: climbs_quiet dest: failed_call_is_Exec)
        from c IH(2,3) nf q r show ?thesis
          unfolding eq by (auto dest: failed_call_is_Exec)
      qed
    qed
  qed
qed


lemma staged_monitorContainer: "staged 4 6 (monitorContainer E containerId)"
  unfolding monitorContainer_def
  apply (rule staged_seq_quiet, (intro emits_intros; simp; fail))
  apply (rule staged_seq[where b = 5])
     apply (rule staged_monitor_loop)
    apply (rule staged_seq_exec)
      apply (simp_all add: call_rank_def)
  apply (rule staged_quiet, intro emits_intros)
  done

lemma staged_getContainerLogs: "staged 6 7 (getContainerLogs E containerId)"
  unfolding getContainerLogs_def
  apply (rule staged_weaken[OF staged_try_catch[where hi = 6 and lo = 6]])
     apply (rule staged_seq_exec)
       apply (simp_all add: call_rank_def)
   apply (rule staged_case_prod)
   apply (rule staged_quiet, intro emits_intros)
  apply (intro emits_intros; simp)
  done

lemma staged_cleanupContainer: "staged 10 14 (cleanupContainer E)"
  unfolding cleanupContainer_def
  apply (rule staged_weaken[OF staged_try_catch[where hi = 13 and lo = 10]])
     apply (rule staged_seq_quiet, (intro emits_intros; simp; fail))
     apply (rule staged_seq[where b = 11])
        apply (rule staged_weaken[OF staged_exec_ignore])
         apply (simp_all add: call_rank_def)
    apply (rule staged_seq[where b = 13])
       apply (rule staged_weaken[OF staged_exec_ignore])
        apply (simp_all add: call_rank_def)
    apply (rule staged_quiet, (intro emits_intros; simp))
  apply (intro emits_intros; simp)
  done

lemma staged_seq_monitor:
  assumes "lo \<le> 4" "6 \<le> hi" "\<And>x. staged 6 hi (f x)"
  shows "staged lo hi (seq (monitorContainer E containerId) f)"
  by (rule staged_seq[OF staged_weaken[OF staged_monitorContainer]]) (use assms in simp_all)

lemma staged_seq_logs:
  assumes "lo \<le> 6" "7 \<le> hi" "\<And>x. staged 7 hi (f x)"
  shows "staged lo hi (seq (getContainerLogs E containerId) f)"
  by (rule staged_seq[OF staged_weaken[OF staged_getContainerLogs]]) (use assms in simp_all)

lemma staged_monitored_body: "staged 0 7 (run_monitored_body E)"
  unfolding run_monitored_body_def
  by ((rule staged_Let | rule staged_case_prod | rule staged_if
          | (rule staged_seq_quiet, (intro emits_intros; simp; fail))
          | (rule staged_seq_exec, (simp add: call_rank_def dockerArgs_def; fail),
               (simp add: call_rank_def dockerArgs_def; fail))
          | (rule staged_seq_monitor, (simp add: call_rank_def dockerArgs_def; fail), (simp; fail))
          | (rule staged_seq_logs, (simp; fail), (simp; fail))
          | (rule staged_quiet, (intro emits_intros; simp; fail)))+)

lemma staged_monitored: "staged 0 14 (run_monitored E)"
  unfolding run_monitored_def
  apply (rule staged_try_finally[where b = 8 and c = 10])
      apply (rule staged_try_catch[OF staged_monitored_body, simplified])
      apply (intro emits_intros; simp)
     apply (rule staged_cleanupContainer)
    apply simp_all
  done

lemma no_retry_split:
  "(\<And>pre e post. evs = pre @ e # post \<Longrightarrow> failed_call e \<Longrightarrow> \<forall>e' \<in> set post. \<not> same_call e e')
   \<Longrightarrow> no_retry evs"
proof (induction evs)
  case Nil
  then show ?case by simp
next
  case (Cons a evs)
  have "no_retry evs"
  proof (rule Cons.IH)
    fix pre e post assume "evs = pre @ e # post" "failed_call e"
    with Cons.prems[of "a # pre" e post] show "\<forall>e' \<in> set post. \<not> same_call e e'"
      by simp
  qed
  moreover have "\<forall>e' \<in> set evs. \<not> same_call a e'" if "failed_call a"
    using Cons.prems[of "[]" a evs] that by simp
  ultimately show ?case by simp
qed

lemma halting_no_retry:
  assumes w: "when_seen failed_call halts body"
    and tr: "tr = snd (body 0) @ (case fst (body 0) of Inl err \<Rightarrow> [SetFailed (message err)] | Inr u \<Rightarrow> [])"
  shows "no_retry tr"
proof (rule no_retry_split)
  fix pre e post assume s: "tr = pre @ e # post" and e: "failed_call e"
  from halted_report[OF w, of tr "\<lambda>err. [SetFailed (message err)]" "[]" pre e post] tr s e
  have "post = [SetFailed (call_error e)]"
    by simp
  then show "\<forall>e' \<in> set post. \<not> same_call e e'"
    by (cases e) simp_all
qed

lemma no_retry_append:
  "no_retry (pre @ e # post) \<Longrightarrow> failed_call e \<Longrightarrow> filter (same_call e) post = []"
  by (induction pre) (auto simp add: filter_empty_conv)

text \<open>The commands of a run that reports no failure are found by walking through the
  action: a step that issues no call adds nothing, a call adds its command, the monitor
  adds its inspections and one \<^verbatim>\<open>logs\<close>.\<close>

lemma commands_Nil [simp]: "commands [] = []"
  by (simp add: commands_def)

lemma commands_append [simp]: "commands (xs @ ys) = commands xs @ commands ys"
  by (simp add: commands_def)

lemma commands_quiet: "\<forall>e \<in> set evs. \<not> is_Exec e \<Longrightarrow> commands evs = []"
  by (induction evs rule: exec_calls.induct) (auto simp add: commands_def)

lemma commands_Exec: "commands [Exec tool args out] = take 1 args"
  by (simp add: commands_def)

lemma issues_weaken: "issues m P \<Longrightarrow> (\<And>cs. P cs \<Longrightarrow> Q cs) \<Longrightarrow> issues m Q"
  unfolding issues_def by blast

lemma issues_quiet: "emits (\<lambda>e. \<not> is_Exec e) m \<Longrightarrow> P [] \<Longrightarrow> issues m P"
  unfolding issues_def emits_def by (auto simp add: commands_quiet)

lemma issues_setFailed: "issues (setFailed msg) P"
  by (simp add: issues_def setFailed_def emit_def)

lemma issues_throw: "issues (throw e) P"
  by (simp add: issues_def throw_def)

lemma issues_seq:
  assumes m: "issues m Q"
    and f: "\<And>x. returns m x \<Longrightarrow> issues (f x) (\<lambda>cs. \<forall>a. Q a \<longrightarrow> P (a @ cs))"
  shows "issues (seq m f) P"
  unfolding issues_def
proof (intro allI impI, elim conjE)
  fix n y
  assume r: "fst (seq m f n) = Inr y" and q: "failures (snd (seq m f n)) = []"
  show "P (commands (snd (seq m f n)))"
  proof (cases "fst (m n)")
    case (Inl err)
    with r show ?thesis by (simp add: seq_Inl)
  next
    case (Inr x)
    let ?k = "n + calls (snd (m n))"
    from Inr have sq: "seq m f n = (fst (f x ?k), snd (m n) @ snd (f x ?k))"
      by (simp add: seq_Inr)
    from Inr have "returns m x" by (auto simp add: returns_def)
    from f[OF this] r q sq
    have "\<forall>a. Q a \<longrightarrow> P (a @ commands (snd (f x ?k)))"
      unfolding issues_def by simp
    moreover from m Inr q sq have "Q (commands (snd (m n)))"
      unfolding issues_def by simp
    ultimately show ?thesis
      using sq by simp
  qed
qed

lemma issues_seq_quiet:
  assumes "emits (\<lambda>e. \<not> is_Exec e) m" "\<And>x. returns m x \<Longrightarrow> issues (f x) P"
  shows "issues (seq m f) P"
proof (rule issues_seq[where Q = "\<lambda>a. a = []"])
  show "issues m (\<lambda>a. a = [])"
    by (rule issues_quiet[OF assms(1)]) simp
  show "issues (f x) (\<lambda>cs. \<forall>a. a = [] \<longrightarrow> P (a @ cs))" if "returns m x" for x
    using assms(2)[OF that] by simp
qed

lemma issues_exec: "issues (exec E tool args ignoreReturnCode) (\<lambda>a. a = take 1 args)"
  by (simp add: issues_def exec_def Let_def commands_Exec)

lemma issues_seq_exec:
  assumes "\<And>x. issues (f x) (\<lambda>cs. P (take 1 args @ cs))"
  shows "issues (seq (exec E tool args ignoreReturnCode) f) P"
  by (rule issues_seq[OF issues_exec]) (use assms in simp)

lemma issues_Let: "issues (f v) P \<Longrightarrow> issues (Let v f) P"
  by simp

lemma issues_if:
  "(c \<Longrightarrow> issues a P) \<Longrightarrow> (\<not> c \<Longrightarrow> issues b P) \<Longrightarrow> issues (if c then a else b) P"
  by simp

lemma issues_case_prod:
  "(\<And>a b. x = (a, b) \<Longrightarrow> issues (f a b) P) \<Longrightarrow> issues (case_prod f x) P"
  by (cases x) simp

lemma issues_monitorContainer:
  "issues (monitorContainer E containerId)
     (\<lambda>a. \<exists>k. 1 \<le> k \<and> k \<le> 30 \<and> a = replicate k ''inspect'' @ [''logs''])"
  unfolding issues_def
proof (intro allI impI)
  fix n x
  let ?L = "snd (monitor_loop E containerId 0 n)"
  let ?k = "length (inspections ?L)"
  from monitor_loop_polled[of E containerId 0 n]
  have p: "polled 30 (inspections ?L)"
    and c: "exec_calls ?L = replicate ?k (inspect_args containerId)"
    by simp_all
  from p have k: "1 \<le> ?k" "?k \<le> 30"
    by (auto simp add: polled_def Suc_le_eq)
  from c have "commands ?L = replicate ?k ''inspect''"
    by (simp add: commands_def inspect_args_def)
  then have "commands (snd (monitorContainer E containerId n)) = replicate ?k ''inspect'' @ [''logs'']"
    by (simp add: monitorContainer_eq commands_def)
  with k show "\<exists>k. 1 \<le> k \<and> k \<le> 30
      \<and> commands (snd (monitorContainer E containerId n)) = replicate k ''inspect'' @ [''logs'']"
    by blast
qed

lemma issues_seq_monitor:
  assumes "\<And>x. issues (f x)
     (\<lambda>cs. \<forall>k. 1 \<le> k \<and> k \<le> 30 \<longrightarrow> P (replicate k ''inspect'' @ ''logs'' # cs))"
  shows "issues (seq (monitorContainer E containerId) f) P"
  by (rule issues_seq[OF issues_monitorContainer], rule issues_weaken[OF assms]) auto

lemma issues_getContainerLogs: "issues (getContainerLogs E containerId) (\<lambda>a. a = [''logs''])"
  unfolding issues_def
  by (auto simp add: getContainerLogs_def try_catch_def seq_def exec_def warning_def emit_def
        ret_def Let_def commands_def split: proc_outcome.splits)

lemma issues_seq_logs:
  assumes "\<And>x. issues (f x) (\<lambda>cs. P (''logs'' # cs))"
  shows "issues (seq (getContainerLogs E containerId) f) P"
  by (rule issues_seq[OF issues_getContainerLogs]) (use assms in simp)

lemma issues_detached: "issues (run_detached_body E) (\<lambda>cs. cs = [''run''])"
  unfolding run_detached_body_def
  by ((rule issues_Let | rule issues_case_prod | rule issues_if
          | rule issues_setFailed | rule issues_throw
          | (rule issues_seq_quiet, (intro emits_intros; simp; fail))
          | rule issues_seq_exec
          | (rule issues_quiet, (intro emits_intros; simp; fail),
               (simp add: dockerRunCmd_detached_def; fail)))+)

lemma issues_traffic:
  "issues (run_traffic_body E) (\<lambda>cs. cs = [''run'', ''exec'', ''logs'', ''exec'', ''logs''])"
  unfolding run_traffic_body_def
  by ((rule issues_Let | rule issues_case_prod | rule issues_if
          | rule issues_setFailed | rule issues_throw
          | (rule issues_seq_quiet, (intro emits_intros; simp; fail))
          | rule issues_seq_exec
          | (rule issues_quiet, (intro emits_intros; simp; fail),
               (simp add: dockerRunCmd_traffic_def; fail)))+)

lemma issues_monitored:
  "issues (run_monitored_body E)
     (\<lambda>cs. \<exists>k. 1 \<le> k \<and> k \<le> 30
         \<and> cs = [''run'', ''ps''] @ replicate k ''inspect'' @ [''logs'', ''logs''])"
  unfolding run_monitored_body_def
  by ((rule issues_Let | rule issues_case_prod | rule issues_if
          | rule issues_setFailed | rule issues_throw
          | (rule issues_seq_quiet, (intro emits_intros; simp; fail))
          | rule issues_seq_monitor | rule issues_seq_logs
          | rule issues_seq_exec
          | (rule issues_quiet, (intro emits_intros; simp; fail),
               (auto simp add: dockerArgs_def; fail)))+)


lemma issues_run:
  assumes i: "issues body P"
    and tr: "tr = snd (body 0) @
        (case fst (body 0) of Inl err \<Rightarrow> SetFailed (message err) # H err | Inr u \<Rightarrow> []) @ C"
    and f: "failures tr = []"
  shows "\<exists>cs. P cs \<and> commands tr = cs @ commands C"
proof (cases "fst (body 0)")
  case (Inl err)
  with tr f show ?thesis by simp
next
  case (Inr x)
  with tr f have "failures (snd (body 0)) = []" by simp
  with i Inr have "P (commands (snd (body 0)))"
    unfolding issues_def by blast
  with tr Inr show ?thesis by simp
qed

lemma commands_cleanup:
  "\<exists>r. r \<le> 1 \<and> commands (cleanup_trace stopped removed) = ''stop'' # replicate r ''rm''"
proof (cases stopped)
  case (SpawnFail msg)
  then have "commands (cleanup_trace stopped removed) = ''stop'' # replicate 0 ''rm''"
    by (simp add: cleanup_trace_def commands_def)
  then show ?thesis by blast
next
  case (Exit code chunks)
  then have "commands (cleanup_trace stopped removed) = ''stop'' # replicate 1 ''rm''"
    by (cases removed) (simp_all add: cleanup_trace_def commands_def)
  then show ?thesis by blast
qed

lemma runs_clean:
  "failures (trace (run_detached E_traffic)) = []
   \<and> failures (trace (run_traffic E_traffic)) = []
   \<and> failures (trace (run_monitored E_p)) = []"
proof (intro conjI)
  show "failures (trace (run_detached E_traffic)) = []"
    by (simp add: eval_simps E_traffic_def)
  show "failures (trace (run_traffic E_traffic)) = []"
    by (simp add: eval_simps E_traffic_def)
  show "failures (trace (run_monitored E_p)) = []"
    by (simp add: eval_simps E_p_def)
qed




end
